theory Spec2Isabelle
  imports Complex_Main "HOL-Library.Char_ord" "HOL-Library.List_Lexorder"
begin

section \<open>Values, columns and frames\<close>

text \<open>
  A cell of a numeric column is a float.  Floats are idealised: a finite value is a real
  number (no rounding, no overflow, no signed zero), and the three special values that the
  pipeline tests for are kept apart.  \<open>NaN\<close> is pandas' null.
\<close>

datatype fval = Fin real | PInf | NInf | NaN

text \<open>Float division and subtraction on the idealised values (numpy semantics).\<close>

fun fdiv :: "fval \<Rightarrow> fval \<Rightarrow> fval" where
  "fdiv (Fin a) (Fin b) =
     (if b \<noteq> 0 then Fin (a / b) else if a = 0 then NaN else if 0 < a then PInf else NInf)"
| "fdiv (Fin a) PInf = Fin 0"
| "fdiv (Fin a) NInf = Fin 0"
| "fdiv (Fin a) NaN = NaN"
| "fdiv PInf (Fin b) = (if b < 0 then NInf else PInf)"
| "fdiv PInf PInf = NaN"
| "fdiv PInf NInf = NaN"
| "fdiv PInf NaN = NaN"
| "fdiv NInf (Fin b) = (if b < 0 then PInf else NInf)"
| "fdiv NInf PInf = NaN"
| "fdiv NInf NInf = NaN"
| "fdiv NInf NaN = NaN"
| "fdiv NaN y = NaN"

fun fsub :: "fval \<Rightarrow> fval \<Rightarrow> fval" where
  "fsub (Fin a) (Fin b) = Fin (a - b)"
| "fsub (Fin a) PInf = NInf"
| "fsub (Fin a) NInf = PInf"
| "fsub (Fin a) NaN = NaN"
| "fsub PInf (Fin b) = PInf"
| "fsub PInf PInf = NaN"
| "fsub PInf NInf = PInf"
| "fsub PInf NaN = NaN"
| "fsub NInf (Fin b) = NInf"
| "fsub NInf PInf = NInf"
| "fsub NInf NInf = NaN"
| "fsub NInf NaN = NaN"
| "fsub NaN y = NaN"

text \<open>
  A column is a name with its cells.  A frame is an index (one label per row) and the
  columns in their order; every column has one cell per row.
\<close>

type_synonym column = "string \<times> fval list"

record 'i frame =
  index :: "'i list"
  cols :: "column list"

definition map_cols :: "(fval list \<Rightarrow> fval list) \<Rightarrow> 'i frame \<Rightarrow> 'i frame" where
  "map_cols f df = df\<lparr>cols := map (\<lambda>(n, vs). (n, f vs)) (cols df)\<rparr>"

text \<open>\<open>df[n] = vs\<close>: an existing column keeps its place, a new one goes last.\<close>

fun set_col :: "string \<Rightarrow> fval list \<Rightarrow> column list \<Rightarrow> column list" where
  "set_col n vs [] = [(n, vs)]"
| "set_col n vs ((m, ws) # cs) = (if m = n then (n, vs) # cs else (m, ws) # set_col n vs cs)"

definition set_column :: "string \<Rightarrow> fval list \<Rightarrow> 'i frame \<Rightarrow> 'i frame" where
  "set_column n vs df = df\<lparr>cols := set_col n vs (cols df)\<rparr>"

text \<open>\<open>ffill\<close>: a null cell takes the last non-null cell above it, if there is one.\<close>

fun ffill_from :: "fval \<Rightarrow> fval list \<Rightarrow> fval list" where
  "ffill_from p [] = []"
| "ffill_from p (v # vs) = (if v = NaN then p # ffill_from p vs else v # ffill_from v vs)"

definition ffill :: "'i frame \<Rightarrow> 'i frame" where
  "ffill df = map_cols (ffill_from NaN) df"

text \<open>
  \<open>Series.pct_change()\<close> with its defaults (one period, nulls padded first):
  the first cell is null, every other cell is \<open>cur / prev - 1\<close>.
\<close>

definition pct_change :: "fval list \<Rightarrow> fval list" where
  "pct_change xs =
     (let ys = ffill_from NaN xs
      in case ys of [] \<Rightarrow> []
         | _ # rest \<Rightarrow> NaN # map (\<lambda>(prev, cur). fsub (fdiv cur prev) (Fin 1)) (zip ys rest))"

text \<open>\<open>replace([inf, -inf], nan)\<close> and \<open>dropna(axis=1, how='all')\<close>.\<close>

definition replaced :: "fval \<Rightarrow> fval" where
  "replaced v = (if v = PInf \<or> v = NInf then NaN else v)"

definition replace_inf :: "'i frame \<Rightarrow> 'i frame" where
  "replace_inf df = map_cols (map replaced) df"

definition dropna_cols :: "'i frame \<Rightarrow> 'i frame" where
  "dropna_cols df = df\<lparr>cols := filter (\<lambda>(n, vs). \<not> list_all (\<lambda>v. v = NaN) vs) (cols df)\<rparr>"

section \<open>The per-symbol loader\<close>

text \<open>One record of a raw file: \<open>time\<close> in epoch milliseconds and the five fields.\<close>

record bar =
  b_time :: int
  b_open :: real
  b_high :: real
  b_low :: real
  b_close :: real
  b_volume :: real

datatype error = FileNotFoundError | AttributeError | KeyError | ValueError

text \<open>
  What the loader reads from outside the repository's code: the input directory (a symbol
  with no file maps to \<open>None\<close>), the indicator suite of the \<open>ta\<close> library (the columns that
  \<open>add_all_ta_features\<close> assigns to the frame it is given), and
  \<open>t - relativedelta(months=6)\<close> of \<open>dateutil\<close>.
\<close>

record env =
  files :: "string \<Rightarrow> bar list option"
  ta_features :: "int frame \<Rightarrow> column list"
  minus_6_months :: "int \<Rightarrow> int"

text \<open>
  \<open>resample(rule).agg(...)\<close> for a fixed-width rule of \<open>rule\<close> milliseconds (\<open>'1H'\<close> is
  3600000).  The rows are sorted by time (stably); the bins are left-closed, labelled by
  their left edge and anchored at midnight of the first row's day; they run from the bin
  of the first row to the bin of the last row, and a bin with no row is kept.
\<close>

definition day_ms :: int where
  "day_ms = 86400000"

definition bin_start :: "int \<Rightarrow> int \<Rightarrow> int \<Rightarrow> int" where
  "bin_start origin rule t = t - (t - origin) mod rule"

definition bin_labels :: "int \<Rightarrow> int list \<Rightarrow> int list" where
  "bin_labels rule ts =
     (case ts of [] \<Rightarrow> []
      | t0 # _ \<Rightarrow>
          let origin = t0 - t0 mod day_ms;
              lo = bin_start origin rule t0;
              hi = bin_start origin rule (last ts)
          in map (\<lambda>k. lo + int k * rule) [0 ..< nat ((hi - lo) div rule) + 1])"

definition bin_rows :: "int \<Rightarrow> bar list \<Rightarrow> int \<Rightarrow> bar list" where
  "bin_rows rule rows l = filter (\<lambda>r. l \<le> b_time r \<and> b_time r < l + rule) rows"

definition agg_first :: "(bar \<Rightarrow> real) \<Rightarrow> bar list \<Rightarrow> fval" where
  "agg_first f g = (case g of [] \<Rightarrow> NaN | r # _ \<Rightarrow> Fin (f r))"

definition agg_last :: "(bar \<Rightarrow> real) \<Rightarrow> bar list \<Rightarrow> fval" where
  "agg_last f g = (if g = [] then NaN else Fin (f (last g)))"

definition agg_max :: "(bar \<Rightarrow> real) \<Rightarrow> bar list \<Rightarrow> fval" where
  "agg_max f g = (case g of [] \<Rightarrow> NaN | r # rs \<Rightarrow> Fin (fold max (map f rs) (f r)))"

definition agg_min :: "(bar \<Rightarrow> real) \<Rightarrow> bar list \<Rightarrow> fval" where
  "agg_min f g = (case g of [] \<Rightarrow> NaN | r # rs \<Rightarrow> Fin (fold min (map f rs) (f r)))"

definition agg_sum :: "(bar \<Rightarrow> real) \<Rightarrow> bar list \<Rightarrow> fval" where
  "agg_sum f g = Fin (sum_list (map f g))"

definition resample_labels :: "int \<Rightarrow> bar list \<Rightarrow> int list" where
  "resample_labels rule rows = bin_labels rule (map b_time (sort_key b_time rows))"

definition resample_groups :: "int \<Rightarrow> bar list \<Rightarrow> bar list list" where
  "resample_groups rule rows =
     map (bin_rows rule (sort_key b_time rows)) (resample_labels rule rows)"

definition resample_agg :: "int \<Rightarrow> bar list \<Rightarrow> int frame" where
  "resample_agg rule rows =
     (let groups = resample_groups rule rows
      in \<lparr>index = resample_labels rule rows,
          cols = [(''open'', map (agg_first b_open) groups),
                  (''high'', map (agg_max b_high) groups),
                  (''low'', map (agg_min b_low) groups),
                  (''close'', map (agg_last b_close) groups),
                  (''volume'', map (agg_sum b_volume) groups)]\<rparr>)"

text \<open>\<open>ta.add_all_ta_features(df, ...)\<close>: every feature column is assigned to the frame.\<close>

definition add_all_ta_features :: "env \<Rightarrow> int frame \<Rightarrow> int frame" where
  "add_all_ta_features env df = foldl (\<lambda>d (n, vs). set_column n vs d) df (ta_features env df)"

text \<open>
  What \<open>load_data\<close> returns: \<open>pd.DataFrame()\<close>, which has no row and no column, or a frame
  whose columns \<open>time\<close> and \<open>symbol\<close> are the index of the model and whose other columns
  are numeric.
\<close>

datatype panel = EmptyPanel | Panel "(int \<times> string) frame"

definition insufficient_warning :: "string \<Rightarrow> string" where
  "insufficient_warning symbol =
     ''Dropped '' @ symbol @ '' in features loading due to insufficient market data''"

text \<open>
  \<open>load_data(symbol, start, end, resample_rule)\<close>: the function's body, that is a call that
  the memoizing decorator does not answer from its store.  The result is the error raised, or
  the warnings emitted and the frame returned.
\<close>

definition load_data :: "env \<Rightarrow> string \<Rightarrow> int \<Rightarrow> int \<Rightarrow> int \<Rightarrow> error + string list \<times> panel" where
  "load_data env symbol start end rule =
     (case files env symbol of
        None \<Rightarrow> Inl FileNotFoundError
      | Some rows \<Rightarrow>
          let df = filter (\<lambda>r. start \<le> b_time r \<and> b_time r < end) rows;
              df = ffill (resample_agg rule df)
          in (case map_of (cols df) ''close'' of
                None \<Rightarrow> Inl AttributeError
              | Some close \<Rightarrow>
                  let df = set_column ''ret'' (pct_change close) df
                  in if index df = [] \<or> length (index df) < 30
                     then Inr ([insufficient_warning symbol], EmptyPanel)
                     else
                       let df = ffill (dropna_cols (replace_inf (add_all_ta_features env df)))
                       in Inr ([], Panel \<lparr>index = map (\<lambda>t. (t, symbol)) (index df),
                                           cols = cols df\<rparr>)))"

section \<open>The fan-out and the panel assembler\<close>

text \<open>
  \<open>Parallel(n_jobs=8)(delayed(f)(s) for s in symbols)\<close>: the results in the order of the
  symbols; an exception of a worker is raised again in the caller.  The workers are
  independent, so the model runs them in turn and reports the first failure in list order.
\<close>

fun parallel :: "('a \<Rightarrow> error + 'b) \<Rightarrow> 'a list \<Rightarrow> error + 'b list" where
  "parallel f [] = Inr []"
| "parallel f (x # xs) =
     (case f x of
        Inl e \<Rightarrow> Inl e
      | Inr y \<Rightarrow> (case parallel f xs of Inl e \<Rightarrow> Inl e | Inr ys \<Rightarrow> Inr (y # ys)))"

text \<open>
  The first statement of each of the four views: every symbol is loaded over the range that
  starts six months before \<open>start\<close>.  The warnings go to the diagnostic channel; the views
  work on the frames.
\<close>

definition fan_out :: "env \<Rightarrow> string list \<Rightarrow> int \<Rightarrow> int \<Rightarrow> int \<Rightarrow> error + panel list" where
  "fan_out env symbols start end rule =
     parallel (\<lambda>s. case load_data env s (minus_6_months env start) end rule of
                       Inl e \<Rightarrow> Inl e
                     | Inr (ws, df) \<Rightarrow> Inr df) symbols"

text \<open>
  \<open>pd.concat\<close>: no frame at all is an error; frames without columns add nothing; the
  columns are the union of the frames' columns in order of first appearance, and a frame
  that lacks a column has nulls there.
\<close>

fun frames :: "panel list \<Rightarrow> (int \<times> string) frame list" where
  "frames [] = []"
| "frames (EmptyPanel # ps) = frames ps"
| "frames (Panel f # ps) = f # frames ps"

definition column_or_null :: "string \<Rightarrow> 'i frame \<Rightarrow> fval list" where
  "column_or_null n f =
     (case map_of (cols f) n of Some vs \<Rightarrow> vs | None \<Rightarrow> replicate (length (index f)) NaN)"

definition union_names :: "'i frame list \<Rightarrow> string list" where
  "union_names fs = rev (remdups (rev (concat (map (\<lambda>f. map fst (cols f)) fs))))"

definition pd_concat :: "panel list \<Rightarrow> error + panel" where
  "pd_concat ps =
     (if ps = [] then Inl ValueError
      else (case frames ps of
              [] \<Rightarrow> Inr EmptyPanel
            | f # fs \<Rightarrow>
                Inr (Panel \<lparr>index = concat (map index (f # fs)),
                            cols = map (\<lambda>n. (n, concat (map (column_or_null n) (f # fs))))
                                     (union_names (f # fs))\<rparr>)))"

text \<open>\<open>set_index(['time', 'symbol'])\<close> fails on a frame that has no such columns.\<close>

definition set_index :: "panel \<Rightarrow> error + (int \<times> string) frame" where
  "set_index p = (case p of EmptyPanel \<Rightarrow> Inl KeyError | Panel f \<Rightarrow> Inr f)"

text \<open>\<open>df[names]\<close> and \<open>df.drop(columns=names)\<close>: both fail on a name that is no column.\<close>

definition select_cols :: "string list \<Rightarrow> 'i frame \<Rightarrow> error + 'i frame" where
  "select_cols ns df =
     (if list_all (\<lambda>n. map_of (cols df) n \<noteq> None) ns
      then Inr (df\<lparr>cols := map (\<lambda>n. (n, column_or_null n df)) ns\<rparr>)
      else Inl KeyError)"

definition drop_cols :: "string list \<Rightarrow> 'i frame \<Rightarrow> error + 'i frame" where
  "drop_cols ns df =
     (if list_all (\<lambda>n. map_of (cols df) n \<noteq> None) ns
      then Inr (df\<lparr>cols := filter (\<lambda>(n, vs). n \<notin> set ns) (cols df)\<rparr>)
      else Inl KeyError)"

text \<open>\<open>df[mask]\<close>: the rows at the positions where the mask holds, in order.\<close>

definition take_rows :: "nat list \<Rightarrow> 'i frame \<Rightarrow> 'i frame" where
  "take_rows ps df =
     \<lparr>index = map (nth (index df)) ps, cols = map (\<lambda>(n, vs). (n, map (nth vs) ps)) (cols df)\<rparr>"

definition filter_rows :: "('i \<Rightarrow> bool) \<Rightarrow> 'i frame \<Rightarrow> 'i frame" where
  "filter_rows P df = take_rows (filter (\<lambda>j. P (index df ! j)) [0 ..< length (index df)]) df"

definition load_market_data :: "env \<Rightarrow> string list \<Rightarrow> int \<Rightarrow> int \<Rightarrow> int \<Rightarrow> error + (int \<times> string) frame" where
  "load_market_data env symbols start end rule =
     (case fan_out env symbols start end rule of Inl e \<Rightarrow> Inl e | Inr dfs \<Rightarrow>
     (case pd_concat dfs of Inl e \<Rightarrow> Inl e | Inr df \<Rightarrow>
     (case set_index df of Inl e \<Rightarrow> Inl e | Inr df \<Rightarrow>
     (case select_cols [''open'', ''high'', ''low'', ''close'', ''volume''] df of Inl e \<Rightarrow> Inl e | Inr df \<Rightarrow>
        Inr (filter_rows (\<lambda>(t, s). start \<le> t \<and> t \<le> end) df)))))"

definition load_features :: "env \<Rightarrow> string list \<Rightarrow> int \<Rightarrow> int \<Rightarrow> int \<Rightarrow> error + (int \<times> string) frame" where
  "load_features env symbols start end rule =
     (case fan_out env symbols start end rule of Inl e \<Rightarrow> Inl e | Inr dfs \<Rightarrow>
     (case pd_concat dfs of Inl e \<Rightarrow> Inl e | Inr df \<Rightarrow>
     (case set_index df of Inl e \<Rightarrow> Inl e | Inr df \<Rightarrow>
     (case drop_cols [''open'', ''high'', ''low'', ''close'', ''volume''] df of Inl e \<Rightarrow> Inl e | Inr df \<Rightarrow>
     (case drop_cols [''trend_psar_down'', ''trend_psar_up''] df of Inl e \<Rightarrow> Inl e | Inr df \<Rightarrow>
        Inr (filter_rows (\<lambda>(t, s). start \<le> t \<and> t \<le> end) df))))))"

text \<open>
  \<open>pivot(index='time', columns='symbol', values=v)\<close>: fails when one of the three columns
  is missing or when a (time, symbol) pair occurs twice.  The rows are the times and the
  columns the symbols that occur, both sorted; a pair that does not occur gives a null cell.
\<close>

definition pivot_cell :: "(int \<times> string) frame \<Rightarrow> fval list \<Rightarrow> string \<Rightarrow> int \<Rightarrow> fval" where
  "pivot_cell df vals s t =
     (case map_of (zip (index df) vals) (t, s) of None \<Rightarrow> NaN | Some x \<Rightarrow> x)"

definition pivot :: "string \<Rightarrow> panel \<Rightarrow> error + int frame" where
  "pivot v p =
     (case p of
        EmptyPanel \<Rightarrow> Inl KeyError
      | Panel df \<Rightarrow>
          (case map_of (cols df) v of
             None \<Rightarrow> Inl KeyError
           | Some vals \<Rightarrow>
               if \<not> distinct (index df) then Inl ValueError
               else
                 let times = sort (remdups (map fst (index df)));
                     symbols = sort (remdups (map snd (index df)))
                 in Inr \<lparr>index = times,
                         cols = map (\<lambda>s. (s, map (pivot_cell df vals s) times)) symbols\<rparr>))"

definition fill_cell :: "real \<Rightarrow> fval \<Rightarrow> fval" where
  "fill_cell c v = (if v = NaN then Fin c else v)"

definition fillna :: "real \<Rightarrow> 'i frame \<Rightarrow> 'i frame" where
  "fillna c df = map_cols (map (fill_cell c)) df"

text \<open>
  The statements that \<open>load_ret\<close> and \<open>load_cov\<close> share: the fan-out, the pivot of the
  \<open>ret\<close> column, \<open>fillna(0)\<close> and \<open>df['cash'] = 0\<close>.
\<close>

definition returns_frame :: "env \<Rightarrow> string list \<Rightarrow> int \<Rightarrow> int \<Rightarrow> int \<Rightarrow> error + int frame" where
  "returns_frame env symbols start end rule =
     (case fan_out env symbols start end rule of Inl e \<Rightarrow> Inl e | Inr dfs \<Rightarrow>
     (case pd_concat dfs of Inl e \<Rightarrow> Inl e | Inr df \<Rightarrow>
     (case pivot ''ret'' df of Inl e \<Rightarrow> Inl e | Inr df \<Rightarrow>
        (let df = fillna 0 df
         in Inr (set_column ''cash'' (replicate (length (index df)) (Fin 0)) df)))))"

definition load_ret :: "env \<Rightarrow> string list \<Rightarrow> int \<Rightarrow> int \<Rightarrow> int \<Rightarrow> error + int frame" where
  "load_ret env symbols start end rule =
     (case returns_frame env symbols start end rule of Inl e \<Rightarrow> Inl e | Inr df \<Rightarrow>
        Inr (filter_rows (\<lambda>t. start \<le> t \<and> t \<le> end) df))"

text \<open>
  \<open>rolling(window=w, min_periods=w).cov()\<close>.  For the row at position \<open>i\<close> and the columns
  \<open>x\<close>, \<open>y\<close> pandas computes, over the \<open>w\<close> rows that end at \<open>i\<close>,
  \<open>(mean(x*y) - mean(x)*mean(y)) * (count / (count - 1))\<close>, and null when fewer than \<open>w\<close>
  rows are there.  One row gives \<open>0 * inf\<close>, null as well.  A window with a cell that is
  not finite is given null here.  The result has one row for each time and each column,
  and the same columns.
\<close>

definition trailing :: "nat \<Rightarrow> nat \<Rightarrow> 'a list \<Rightarrow> 'a list" where
  "trailing w i xs = take w (drop (i + 1 - w) xs)"

fun finite_cells :: "fval list \<Rightarrow> real list option" where
  "finite_cells [] = Some []"
| "finite_cells (Fin a # vs) = (case finite_cells vs of None \<Rightarrow> None | Some as \<Rightarrow> Some (a # as))"
| "finite_cells (v # vs) = None"

definition mean :: "real list \<Rightarrow> real" where
  "mean xs = sum_list xs / real (length xs)"

definition roll_cov :: "nat \<Rightarrow> nat \<Rightarrow> fval list \<Rightarrow> fval list \<Rightarrow> fval" where
  "roll_cov w i xs ys =
     (if i + 1 < w \<or> w < 2 then NaN
      else (case (finite_cells (trailing w i xs), finite_cells (trailing w i ys)) of
              (Some a, Some b) \<Rightarrow>
                Fin ((mean (map (\<lambda>(x, y). x * y) (zip a b)) - mean a * mean b)
                     * (real w / (real w - 1)))
            | _ \<Rightarrow> NaN))"

definition rolling_cov :: "nat \<Rightarrow> int frame \<Rightarrow> (int \<times> string) frame" where
  "rolling_cov w df =
     (let rows = List.product [0 ..< length (index df)] (cols df)
      in \<lparr>index = map (\<lambda>(i, (a, xs)). (index df ! i, a)) rows,
          cols = map (\<lambda>(b, ys). (b, map (\<lambda>(i, (a, xs)). roll_cov w i xs ys) rows)) (cols df)\<rparr>)"

text \<open>\<open>dropna()\<close>: the rows that have no null cell.\<close>

definition dropna :: "'i frame \<Rightarrow> 'i frame" where
  "dropna df =
     take_rows (filter (\<lambda>j. list_all (\<lambda>(n, vs). vs ! j \<noteq> NaN) (cols df))
                  [0 ..< length (index df)]) df"

definition load_cov :: "env \<Rightarrow> string list \<Rightarrow> int \<Rightarrow> int \<Rightarrow> int \<Rightarrow> int \<Rightarrow> error + (int \<times> string) frame" where
  "load_cov env symbols start end window rule =
     (case returns_frame env symbols start end rule of Inl e \<Rightarrow> Inl e | Inr df \<Rightarrow>
        if window < 0 then Inl ValueError
        else (let df = dropna (rolling_cov (nat window) df)
              in Inr (filter_rows (\<lambda>(t, s). start \<le> t \<and> t \<le> end) df)))"

section \<open>Notions used in the statements\<close>

text \<open>
  The names that \<open>load_data\<close> itself gives to columns.  The indicator suite of the \<open>ta\<close>
  library names its columns after the indicator (\<open>volume_adi\<close>, \<open>trend_macd\<close>, ...); an
  environment keeps the base columns when no feature column takes one of these names.
\<close>

definition base_columns :: "string list" where
  "base_columns = [''open'', ''high'', ''low'', ''close'', ''volume'', ''ret'']"

definition keeps_base :: "env \<Rightarrow> bool" where
  "keeps_base env = (\<forall>df. \<forall>n\<in>set base_columns. n \<notin> fst ` set (ta_features env df))"

text \<open>
  The sample covariance of two series of the same length, as the specification words it:
  the sum of the products of the deviations from the means, over the length less one.
\<close>

definition sample_cov :: "real list \<Rightarrow> real list \<Rightarrow> real" where
  "sample_cov xs ys =
     sum_list (map (\<lambda>(x, y). (x - mean xs) * (y - mean ys)) (zip xs ys)) / (real (length xs) - 1)"

text \<open>The cells that hold a number.\<close>

fun is_fin :: "fval \<Rightarrow> bool" where
  "is_fin (Fin a) = True"
| "is_fin v = False"

text \<open>The cell of a named column at a row position, if the frame has the column.\<close>

definition cell :: "'i frame \<Rightarrow> string \<Rightarrow> nat \<Rightarrow> fval option" where
  "cell df n i = map_option (\<lambda>vs. vs ! i) (map_of (cols df) n)"

text \<open>
  The (time, symbol) pairs of the rows that the loaders return to a view, over all the
  requested symbols.
\<close>

definition loaded_keys :: "env \<Rightarrow> string list \<Rightarrow> int \<Rightarrow> int \<Rightarrow> int \<Rightarrow> (int \<times> string) list" where
  "loaded_keys env symbols start end rule =
     (case fan_out env symbols start end rule of
        Inl e \<Rightarrow> []
      | Inr dfs \<Rightarrow> concat (map index (frames dfs)))"

section \<open>An example universe\<close>

text \<open>
  Hourly bars (\<open>rule = 3600000\<close>).  Symbol \<open>a\<close> has bars at 1970-06-29 21:00, 22:00 and
  23:00 and at 1970-07-01 02:00, hence thirty hourly bins of which twenty-six are gaps;
  its second close is zero.  Symbol \<open>e\<close> has bars at 1970-06-29 22:00 and at
  1970-07-01 03:00, thirty bins again, one hour later than those of \<open>a\<close>.  Symbol \<open>b\<close>
  has a file without records, symbol \<open>d\<close> has only the first three bars of \<open>a\<close>, and no
  other symbol has a file.  The requested range is 1970-07-01 00:00 to 04:00; six months
  before its start is 1970-01-01 00:00, the epoch.
\<close>

definition demo_bars :: "bar list" where
  "demo_bars =
     [\<lparr>b_time = 15541200000, b_open = 1, b_high = 3, b_low = 1, b_close = 2, b_volume = 5\<rparr>,
      \<lparr>b_time = 15544800000, b_open = 2, b_high = 2, b_low = 0, b_close = 0, b_volume = 1\<rparr>,
      \<lparr>b_time = 15548400000, b_open = 4, b_high = 6, b_low = 4, b_close = 5, b_volume = 2\<rparr>,
      \<lparr>b_time = 15645600000, b_open = 5, b_high = 8, b_low = 5, b_close = 8, b_volume = 3\<rparr>]"

definition demo_bars_e :: "bar list" where
  "demo_bars_e =
     [\<lparr>b_time = 15544800000, b_open = 10, b_high = 12, b_low = 9, b_close = 10, b_volume = 1\<rparr>,
      \<lparr>b_time = 15649200000, b_open = 10, b_high = 11, b_low = 10, b_close = 11, b_volume = 2\<rparr>]"

definition demo_features :: "int frame \<Rightarrow> column list" where
  "demo_features df =
     [(''trend_psar_up'', map (\<lambda>t. Fin 1) (index df)),
      (''trend_psar_down'', map (\<lambda>t. Fin 9) (index df)),
      (''momentum_rsi'', map (\<lambda>t. Fin 50) (index df)),
      (''others_dr'', map (\<lambda>t. PInf) (index df))]"

definition demo_env :: env where
  "demo_env =
     \<lparr>files = [''a'' \<mapsto> demo_bars, ''b'' \<mapsto> [], ''d'' \<mapsto> take 3 demo_bars,
               ''e'' \<mapsto> demo_bars_e],
      ta_features = demo_features,
      minus_6_months = (\<lambda>t. t - 15638400000)\<rparr>"

definition demo_symbols :: "string list" where
  "demo_symbols = [''a'', ''b'', ''e'']"

definition demo_start :: int where
  "demo_start = 15638400000"

definition demo_end :: int where
  "demo_end = 15652800000"

definition demo_panel :: "(int \<times> string) frame" where
  "demo_panel =
     \<lparr>index = [(15541200000, ''a''), (15544800000, ''a''), (15548400000, ''a''),
               (15552000000, ''a''), (15555600000, ''a''), (15559200000, ''a''),
               (15562800000, ''a''), (15566400000, ''a''), (15570000000, ''a''),
               (15573600000, ''a''), (15577200000, ''a''), (15580800000, ''a''),
               (15584400000, ''a''), (15588000000, ''a''), (15591600000, ''a''),
               (15595200000, ''a''), (15598800000, ''a''), (15602400000, ''a''),
               (15606000000, ''a''), (15609600000, ''a''), (15613200000, ''a''),
               (15616800000, ''a''), (15620400000, ''a''), (15624000000, ''a''),
               (15627600000, ''a''), (15631200000, ''a''), (15634800000, ''a''),
               (15638400000, ''a''), (15642000000, ''a''), (15645600000, ''a'')],
      cols = [(''open'', [Fin 1, Fin 2, Fin 4, Fin 4, Fin 4, Fin 4, Fin 4, Fin 4, Fin 4,
               Fin 4, Fin 4, Fin 4, Fin 4, Fin 4, Fin 4, Fin 4, Fin 4, Fin 4, Fin 4, Fin 4,
               Fin 4, Fin 4, Fin 4, Fin 4, Fin 4, Fin 4, Fin 4, Fin 4, Fin 4, Fin 5]),
              (''high'', [Fin 3, Fin 2, Fin 6, Fin 6, Fin 6, Fin 6, Fin 6, Fin 6, Fin 6,
               Fin 6, Fin 6, Fin 6, Fin 6, Fin 6, Fin 6, Fin 6, Fin 6, Fin 6, Fin 6, Fin 6,
               Fin 6, Fin 6, Fin 6, Fin 6, Fin 6, Fin 6, Fin 6, Fin 6, Fin 6, Fin 8]),
              (''low'', [Fin 1, Fin 0, Fin 4, Fin 4, Fin 4, Fin 4, Fin 4, Fin 4, Fin 4, Fin
               4, Fin 4, Fin 4, Fin 4, Fin 4, Fin 4, Fin 4, Fin 4, Fin 4, Fin 4, Fin 4, Fin
               4, Fin 4, Fin 4, Fin 4, Fin 4, Fin 4, Fin 4, Fin 4, Fin 4, Fin 5]),
              (''close'', [Fin 2, Fin 0, Fin 5, Fin 5, Fin 5, Fin 5, Fin 5, Fin 5, Fin 5,
               Fin 5, Fin 5, Fin 5, Fin 5, Fin 5, Fin 5, Fin 5, Fin 5, Fin 5, Fin 5, Fin 5,
               Fin 5, Fin 5, Fin 5, Fin 5, Fin 5, Fin 5, Fin 5, Fin 5, Fin 5, Fin 8]),
              (''volume'', [Fin 5, Fin 1, Fin 2, Fin 0, Fin 0, Fin 0, Fin 0, Fin 0, Fin 0,
               Fin 0, Fin 0, Fin 0, Fin 0, Fin 0, Fin 0, Fin 0, Fin 0, Fin 0, Fin 0, Fin 0,
               Fin 0, Fin 0, Fin 0, Fin 0, Fin 0, Fin 0, Fin 0, Fin 0, Fin 0, Fin 3]),
              (''ret'', [NaN, Fin (- 1), Fin (- 1), Fin 0, Fin 0, Fin 0, Fin 0, Fin 0, Fin
               0, Fin 0, Fin 0, Fin 0, Fin 0, Fin 0, Fin 0, Fin 0, Fin 0, Fin 0, Fin 0, Fin
               0, Fin 0, Fin 0, Fin 0, Fin 0, Fin 0, Fin 0, Fin 0, Fin 0, Fin 0, Fin (3 /
               5)]),
              (''trend_psar_up'', [Fin 1, Fin 1, Fin 1, Fin 1, Fin 1, Fin 1, Fin 1, Fin 1,
               Fin 1, Fin 1, Fin 1, Fin 1, Fin 1, Fin 1, Fin 1, Fin 1, Fin 1, Fin 1, Fin 1,
               Fin 1, Fin 1, Fin 1, Fin 1, Fin 1, Fin 1, Fin 1, Fin 1, Fin 1, Fin 1, Fin 1]),
              (''trend_psar_down'', [Fin 9, Fin 9, Fin 9, Fin 9, Fin 9, Fin 9, Fin 9, Fin
               9, Fin 9, Fin 9, Fin 9, Fin 9, Fin 9, Fin 9, Fin 9, Fin 9, Fin 9, Fin 9, Fin
               9, Fin 9, Fin 9, Fin 9, Fin 9, Fin 9, Fin 9, Fin 9, Fin 9, Fin 9, Fin 9, Fin
               9]),
              (''momentum_rsi'', [Fin 50, Fin 50, Fin 50, Fin 50, Fin 50, Fin 50, Fin 50,
               Fin 50, Fin 50, Fin 50, Fin 50, Fin 50, Fin 50, Fin 50, Fin 50, Fin 50, Fin
               50, Fin 50, Fin 50, Fin 50, Fin 50, Fin 50, Fin 50, Fin 50, Fin 50, Fin 50,
               Fin 50, Fin 50, Fin 50, Fin 50])]\<rparr>"

definition demo_market :: "(int \<times> string) frame" where
  "demo_market =
     \<lparr>index = [(15638400000, ''a''), (15642000000, ''a''), (15645600000, ''a''),
               (15638400000, ''e''), (15642000000, ''e''), (15645600000, ''e''),
               (15649200000, ''e'')],
      cols = [(''open'', [Fin 4, Fin 4, Fin 5, Fin 10, Fin 10, Fin 10, Fin 10]),
              (''high'', [Fin 6, Fin 6, Fin 8, Fin 12, Fin 12, Fin 12, Fin 11]),
              (''low'', [Fin 4, Fin 4, Fin 5, Fin 9, Fin 9, Fin 9, Fin 10]),
              (''close'', [Fin 5, Fin 5, Fin 8, Fin 10, Fin 10, Fin 10, Fin 11]),
              (''volume'', [Fin 0, Fin 0, Fin 3, Fin 0, Fin 0, Fin 0, Fin 2])]\<rparr>"

definition demo_feature_view :: "(int \<times> string) frame" where
  "demo_feature_view =
     \<lparr>index = [(15638400000, ''a''), (15642000000, ''a''), (15645600000, ''a''),
               (15638400000, ''e''), (15642000000, ''e''), (15645600000, ''e''),
               (15649200000, ''e'')],
      cols = [(''ret'', [Fin 0, Fin 0, Fin (3 / 5), Fin 0, Fin 0, Fin 0, Fin (1 / 10)]),
              (''momentum_rsi'', [Fin 50, Fin 50, Fin 50, Fin 50, Fin 50, Fin 50, Fin 50])]\<rparr>"

definition demo_ret_view :: "int frame" where
  "demo_ret_view =
     \<lparr>index = [15638400000, 15642000000, 15645600000, 15649200000],
      cols = [(''a'', [Fin 0, Fin 0, Fin (3 / 5), Fin 0]),
              (''e'', [Fin 0, Fin 0, Fin 0, Fin (1 / 10)]),
              (''cash'', [Fin 0, Fin 0, Fin 0, Fin 0])]\<rparr>"

definition demo_cov_view :: "(int \<times> string) frame" where
  "demo_cov_view =
     \<lparr>index = [(15638400000, ''a''), (15638400000, ''e''), (15638400000, ''cash''),
               (15642000000, ''a''), (15642000000, ''e''), (15642000000, ''cash''),
               (15645600000, ''a''), (15645600000, ''e''), (15645600000, ''cash''),
               (15649200000, ''a''), (15649200000, ''e''), (15649200000, ''cash'')],
      cols = [(''a'', [Fin 0, Fin 0, Fin 0, Fin 0, Fin 0, Fin 0, Fin (3 / 25), Fin 0, Fin 0,
                       Fin (3 / 25), Fin (- (1 / 100)), Fin 0]),
              (''e'', [Fin 0, Fin 0, Fin 0, Fin 0, Fin 0, Fin 0, Fin 0, Fin 0, Fin 0,
                       Fin (- (1 / 100)), Fin (1 / 300), Fin 0]),
              (''cash'', [Fin 0, Fin 0, Fin 0, Fin 0, Fin 0, Fin 0, Fin 0, Fin 0, Fin 0,
                          Fin 0, Fin 0, Fin 0])]\<rparr>"

section \<open>The example, evaluated\<close>

lemma demo_load_data: "load_data demo_env ''a'' 0 demo_end 3600000 = Inr ([], Panel demo_panel)"
  by code_simp

lemma demo_load_market_data:
  "load_market_data demo_env demo_symbols demo_start demo_end 3600000 = Inr demo_market"
  by code_simp

lemma demo_load_features:
  "load_features demo_env demo_symbols demo_start demo_end 3600000 = Inr demo_feature_view"
  by code_simp

lemma demo_load_ret:
  "load_ret demo_env demo_symbols demo_start demo_end 3600000 = Inr demo_ret_view"
  by code_simp

lemma demo_load_cov:
  "load_cov demo_env demo_symbols demo_start demo_end 3 3600000 = Inr demo_cov_view"
  by code_simp

section \<open>The fan-out\<close>

lemma parallel_Inr_length: "parallel f xs = Inr ys \<Longrightarrow> length ys = length xs"
  by (induction xs arbitrary: ys) (auto split: sum.splits)

lemma parallel_Inr_set:
  "parallel f xs = Inr ys \<Longrightarrow> y \<in> set ys \<Longrightarrow> \<exists>x\<in>set xs. f x = Inr y"
  by (induction xs arbitrary: ys) (auto split: sum.splits)

text \<open>If every failure of the workers is the same error, one failing worker fails the batch with it.\<close>

lemma parallel_fails:
  assumes "x \<in> set xs" and "f x = Inl e"
    and "\<And>z e'. z \<in> set xs \<Longrightarrow> f z = Inl e' \<Longrightarrow> e' = e"
  shows "parallel f xs = Inl e"
  using assms
proof (induction xs)
  case Nil
  then show ?case by simp
next
  case (Cons z zs)
  show ?case
  proof (cases "f z")
    case (Inl e')
    with Cons.prems(3)[of z e'] show ?thesis by simp
  next
    case (Inr y)
    with Cons.prems(1,2) have mem: "x \<in> set zs"
      by auto
    have "parallel f zs = Inl e"
    proof (rule Cons.IH[OF mem Cons.prems(2)])
      fix u e'
      assume "u \<in> set zs" and "f u = Inl e'"
      then show "e' = e"
        using Cons.prems(3)[of u e'] by simp
    qed
    with Inr show ?thesis
      by simp
  qed
qed

lemma map_of_map_cols: "map_of (cols (map_cols f df)) n = map_option f (map_of (cols df) n)"
  by (induction "cols df" arbitrary: df) (auto simp: map_cols_def map_of_map split: prod.splits)

text \<open>The only exception of \<open>load_data\<close> is the missing file: the \<open>close\<close> column is always there.\<close>

lemma close_present: "map_of (cols (ffill (resample_agg rule rows))) ''close'' \<noteq> None"
  by (simp add: ffill_def map_of_map_cols resample_agg_def Let_def)

lemma load_data_error: "load_data env s a b r = Inl e \<Longrightarrow> e = FileNotFoundError"
  using close_present[of r "filter (\<lambda>r. a \<le> b_time r \<and> b_time r < b) (the (files env s))"]
  by (simp add: load_data_def Let_def split: option.splits if_splits)

lemma load_data_missing: "files env s = None \<Longrightarrow> load_data env s a b r = Inl FileNotFoundError"
  by (simp add: load_data_def)

lemma fan_out_missing:
  assumes "s \<in> set symbols" and "files env s = None"
  shows "fan_out env symbols start end rule = Inl FileNotFoundError"
  unfolding fan_out_def
proof (rule parallel_fails[OF assms(1)])
  show "(case load_data env s (minus_6_months env start) end rule of
           Inl e \<Rightarrow> Inl e | Inr (ws, df) \<Rightarrow> Inr df) = Inl FileNotFoundError"
    by (simp add: load_data_missing[OF assms(2)])
next
  fix z e'
  assume "(case load_data env z (minus_6_months env start) end rule of
             Inl e \<Rightarrow> Inl e | Inr (ws, df) \<Rightarrow> Inr df) = Inl e'"
  then show "e' = FileNotFoundError"
    by (auto split: sum.splits dest: load_data_error)
qed

section \<open>Selecting rows and columns\<close>

lemma nth_filter_positions:
  "map (nth xs) (filter (\<lambda>j. P (xs ! j)) [0 ..< length xs]) = filter P xs"
proof -
  have "filter P xs = filter P (map (nth xs) [0 ..< length xs])"
    by (simp add: map_nth)
  also have "\<dots> = map (nth xs) (filter (P \<circ> nth xs) [0 ..< length xs])"
    by (simp add: filter_map)
  finally show ?thesis
    by (simp add: comp_def)
qed

lemma index_filter_rows: "index (filter_rows P df) = filter P (index df)"
  by (simp add: filter_rows_def take_rows_def nth_filter_positions)

lemma names_take_rows: "map fst (cols (take_rows ps df)) = map fst (cols df)"
  by (simp add: take_rows_def comp_def case_prod_beta)

lemma names_filter_rows: "map fst (cols (filter_rows P df)) = map fst (cols df)"
  by (simp add: filter_rows_def names_take_rows)

lemma names_drop_cols:
  "drop_cols ns df = Inr df' \<Longrightarrow> set (map fst (cols df')) \<inter> set ns = {}"
  by (auto simp: drop_cols_def split: if_splits)

lemma names_drop_cols_subset:
  "drop_cols ns df = Inr df' \<Longrightarrow> set (map fst (cols df')) \<subseteq> set (map fst (cols df))"
  by (auto simp: drop_cols_def split: if_splits)

section \<open>Rows taken by position\<close>

lemma index_take_rows: "index (take_rows ps df) = map (nth (index df)) ps"
  by (simp add: take_rows_def)

lemma cols_take_rows:
  "cols (take_rows ps df) = map (\<lambda>(n, vs). (n, map (nth vs) ps)) (cols df)"
  by (simp add: take_rows_def)

lemma in_cols_take_rows:
  "(n, vs) \<in> set (cols (take_rows ps df))
     \<longleftrightarrow> (\<exists>vs'. (n, vs') \<in> set (cols df) \<and> vs = map (nth vs') ps)"
  by (auto simp: cols_take_rows)

lemma map_of_mapped_cols:
  "map_of (map (\<lambda>(n, vs). (n, f vs)) cs) n = map_option f (map_of cs n)"
  by (induction cs) auto

lemma map_of_take_rows:
  "map_of (cols (take_rows ps df)) n = map_option (\<lambda>vs. map (nth vs) ps) (map_of (cols df) n)"
  by (simp add: cols_take_rows map_of_mapped_cols)

lemma set_map_nth_subset:
  assumes "\<forall>j\<in>set ps. j < length xs"
  shows "set (map (nth xs) ps) \<subseteq> set xs"
  using assms by auto

lemma index_dropna_subset: "set (index (dropna df)) \<subseteq> set (index df)"
  unfolding dropna_def index_take_rows
  by (rule set_map_nth_subset) simp

lemma names_dropna: "map fst (cols (dropna df)) = map fst (cols df)"
  by (simp add: dropna_def names_take_rows)

section \<open>Assigning a column\<close>

lemma map_of_set_col: "map_of (set_col n vs cs) = (map_of cs)(n \<mapsto> vs)"
  by (induction cs) (auto simp: fun_eq_iff)

lemma names_set_col: "fst ` set (set_col n vs cs) = insert n (fst ` set cs)"
proof (induction cs)
  case Nil
  then show ?case by simp
next
  case (Cons c cs)
  obtain m ws where c: "c = (m, ws)"
    by (cases c)
  show ?case
  proof (cases "m = n")
    case True
    then show ?thesis by (simp add: c)
  next
    case False
    then show ?thesis using Cons.IH by (simp add: c insert_commute)
  qed
qed

lemma in_set_col:
  "(m, ws) \<in> set (set_col n vs cs) \<Longrightarrow> (m = n \<and> ws = vs) \<or> (m, ws) \<in> set cs"
  by (induction cs) (auto split: if_splits)

lemma distinct_set_col:
  "distinct (map fst cs) \<Longrightarrow> distinct (map fst (set_col n vs cs))"
proof (induction cs)
  case Nil
  then show ?case by simp
next
  case (Cons c cs)
  obtain m ws where c: "c = (m, ws)"
    by (cases c)
  from Cons.prems have "m \<notin> fst ` set cs" and "distinct (map fst cs)"
    by (simp_all add: c)
  then show ?case
    using Cons.IH by (auto simp: c names_set_col)
qed

section \<open>What the loader and the fan-out return\<close>

lemma load_data_PanelD:
  assumes "load_data env s a b r = Inr (ws, Panel p)"
  shows "ws = [] \<and> map snd (index p) = replicate (length (index p)) s"
  using assms
  by (auto simp: load_data_def Let_def comp_def map_replicate_const
           split: option.splits if_splits)

lemma load_data_tags:
  assumes "load_data env s a b r = Inr (ws, Panel p)"
  shows "snd ` set (index p) \<subseteq> {s}"
proof -
  from load_data_PanelD[OF assms] have "set (map snd (index p)) \<subseteq> {s}"
    by (metis set_replicate_conv_if empty_subsetI subset_refl)
  then show ?thesis
    by simp
qed

lemma frames_iff: "f \<in> set (frames ps) \<longleftrightarrow> Panel f \<in> set ps"
  by (induction ps rule: frames.induct) auto

lemma fan_out_frames:
  assumes "fan_out env symbols start end rule = Inr dfs" and "f \<in> set (frames dfs)"
  shows "\<exists>s\<in>set symbols. \<exists>ws. load_data env s (minus_6_months env start) end rule = Inr (ws, Panel f)"
proof -
  from assms(2) have "Panel f \<in> set dfs"
    by (simp add: frames_iff)
  with assms(1) obtain s where s: "s \<in> set symbols"
    and "(case load_data env s (minus_6_months env start) end rule of
            Inl e \<Rightarrow> Inl e | Inr (ws, df) \<Rightarrow> Inr df) = Inr (Panel f)"
    unfolding fan_out_def by (blast dest: parallel_Inr_set)
  then have "\<exists>ws. load_data env s (minus_6_months env start) end rule = Inr (ws, Panel f)"
    by (auto split: sum.splits)
  with s show ?thesis
    by blast
qed

text \<open>A symbol without a record in the range loaded gives the empty frame and a warning.\<close>

lemma bin_labels_Nil: "bin_labels rule [] = []"
  by (simp add: bin_labels_def)

lemma load_data_no_rows:
  assumes "files env s = Some raw" and "\<forall>r\<in>set raw. \<not> (a \<le> b_time r \<and> b_time r < b)"
  shows "load_data env s a b rule = Inr ([insufficient_warning s], EmptyPanel)"
proof -
  from assms(2) have "filter (\<lambda>r. a \<le> b_time r \<and> b_time r < b) raw = []"
    by (simp add: filter_empty_conv)
  then show ?thesis
    using assms(1)
    by (simp add: load_data_def Let_def ffill_def map_cols_def resample_agg_def
                  resample_labels_def bin_labels_Nil set_column_def)
qed

text \<open>The symbols of the rows that the fan-out returns.\<close>

lemma fan_out_tags:
  assumes "fan_out env symbols start end rule = Inr dfs"
    and "load_data env s (minus_6_months env start) end rule = Inr (ws, EmptyPanel)"
  shows "s \<notin> snd ` set (concat (map index (frames dfs)))"
proof
  assume "s \<in> snd ` set (concat (map index (frames dfs)))"
  then obtain f where f: "f \<in> set (frames dfs)" and sf: "s \<in> snd ` set (index f)"
    by auto
  from fan_out_frames[OF assms(1) f] obtain x ws' where
    x: "load_data env x (minus_6_months env start) end rule = Inr (ws', Panel f)"
    by blast
  from load_data_tags[OF x] sf have "x = s"
    by auto
  with x assms(2) show False
    by simp
qed

section \<open>The assembled frames\<close>

lemma pd_concat_PanelD:
  assumes "pd_concat dfs = Inr (Panel df)"
  shows "index df = concat (map index (frames dfs))"
  using assms by (auto simp: pd_concat_def split: if_splits list.splits)

lemma pd_concat_EmptyD:
  assumes "pd_concat dfs = Inr EmptyPanel"
  shows "frames dfs = []"
  using assms by (auto simp: pd_concat_def split: if_splits list.splits)

lemma set_index_InrD: "set_index p = Inr df \<Longrightarrow> p = Panel df"
  by (auto simp: set_index_def split: panel.splits)

lemma index_select_cols: "select_cols ns df = Inr df' \<Longrightarrow> index df' = index df"
  by (auto simp: select_cols_def split: if_splits)

lemma index_drop_cols: "drop_cols ns df = Inr df' \<Longrightarrow> index df' = index df"
  by (auto simp: drop_cols_def split: if_splits)

lemma load_market_data_InrD:
  assumes "load_market_data env symbols start end rule = Inr out"
  shows "\<exists>dfs df. fan_out env symbols start end rule = Inr dfs \<and> pd_concat dfs = Inr (Panel df)
           \<and> index out = filter (\<lambda>(t, s). start \<le> t \<and> t \<le> end) (index df)"
proof -
  from assms obtain dfs p df sel where
    "fan_out env symbols start end rule = Inr dfs" "pd_concat dfs = Inr p" "set_index p = Inr df"
    "select_cols [''open'', ''high'', ''low'', ''close'', ''volume''] df = Inr sel"
    "out = filter_rows (\<lambda>(t, s). start \<le> t \<and> t \<le> end) sel"
    by (auto simp: load_market_data_def split: sum.splits)
  then show ?thesis
    by (auto simp: index_filter_rows dest!: set_index_InrD index_select_cols)
qed

lemma load_features_InrD:
  assumes "load_features env symbols start end rule = Inr out"
  shows "\<exists>dfs df. fan_out env symbols start end rule = Inr dfs \<and> pd_concat dfs = Inr (Panel df)
           \<and> index out = filter (\<lambda>(t, s). start \<le> t \<and> t \<le> end) (index df)"
proof -
  from assms obtain dfs p df d1 d2 where
    "fan_out env symbols start end rule = Inr dfs" "pd_concat dfs = Inr p" "set_index p = Inr df"
    "drop_cols [''open'', ''high'', ''low'', ''close'', ''volume''] df = Inr d1"
    "drop_cols [''trend_psar_down'', ''trend_psar_up''] d1 = Inr d2"
    "out = filter_rows (\<lambda>(t, s). start \<le> t \<and> t \<le> end) d2"
    by (auto simp: load_features_def split: sum.splits)
  then show ?thesis
    by (auto simp: index_filter_rows dest!: set_index_InrD index_drop_cols)
qed

text \<open>The pivot: its rows, its columns and its cells.\<close>

lemma pivot_InrD:
  assumes "pivot v p = Inr w"
  shows "\<exists>df vals. p = Panel df \<and> map_of (cols df) v = Some vals \<and> distinct (index df)
           \<and> index w = sort (remdups (map fst (index df)))
           \<and> cols w = map (\<lambda>s. (s, map (pivot_cell df vals s) (index w)))
                          (sort (remdups (map snd (index df))))"
  using assms
  by (auto simp: pivot_def Let_def split: panel.splits option.splits if_splits)

lemma pivot_cell_missing: "(t, s) \<notin> set (index df) \<Longrightarrow> pivot_cell df vals s t = NaN"
proof -
  assume "(t, s) \<notin> set (index df)"
  then have "(t, s) \<notin> fst ` set (zip (index df) vals)"
    by (auto dest: set_zip_leftD)
  then have "map_of (zip (index df) vals) (t, s) = None"
    by (simp add: map_of_eq_None_iff)
  then show ?thesis
    by (simp add: pivot_cell_def)
qed

section \<open>The returns frame\<close>

lemma returns_frame_InrD:
  assumes "returns_frame env symbols start end rule = Inr R"
  shows "\<exists>dfs df vals.
           fan_out env symbols start end rule = Inr dfs \<and> pd_concat dfs = Inr (Panel df)
         \<and> map_of (cols df) ''ret'' = Some vals \<and> distinct (index df)
         \<and> index R = sort (remdups (map fst (index df)))
         \<and> cols R = set_col ''cash'' (replicate (length (index R)) (Fin 0))
                      (map (\<lambda>s. (s, map (\<lambda>t. fill_cell 0 (pivot_cell df vals s t)) (index R)))
                         (sort (remdups (map snd (index df)))))"
proof -
  from assms obtain dfs p w where
    f: "fan_out env symbols start end rule = Inr dfs" and c: "pd_concat dfs = Inr p" and
    pv: "pivot ''ret'' p = Inr w" and
    R: "R = set_column ''cash'' (replicate (length (index (fillna 0 w))) (Fin 0)) (fillna 0 w)"
    by (auto simp: returns_frame_def Let_def split: sum.splits)
  from pivot_InrD[OF pv] obtain df vals where
    p: "p = Panel df" and v: "map_of (cols df) ''ret'' = Some vals" and d: "distinct (index df)" and
    iw: "index w = sort (remdups (map fst (index df)))" and
    cw: "cols w = map (\<lambda>s. (s, map (pivot_cell df vals s) (index w)))
                    (sort (remdups (map snd (index df))))"
    by blast
  have iR: "index R = index w"
    by (simp add: R set_column_def fillna_def map_cols_def)
  have cR: "cols R = set_col ''cash'' (replicate (length (index R)) (Fin 0))
                      (map (\<lambda>s. (s, map (\<lambda>t. fill_cell 0 (pivot_cell df vals s t)) (index R)))
                         (sort (remdups (map snd (index df)))))"
    by (simp add: R set_column_def fillna_def map_cols_def cw comp_def)
  from f c p v d iR iw cR show ?thesis
    by auto
qed

lemma returns_frame_lengths:
  assumes "returns_frame env symbols start end rule = Inr R" and "(n, vs) \<in> set (cols R)"
  shows "length vs = length (index R)"
proof -
  from returns_frame_InrD[OF assms(1)] obtain df vals where
    cR: "cols R = set_col ''cash'' (replicate (length (index R)) (Fin 0))
                      (map (\<lambda>s. (s, map (\<lambda>t. fill_cell 0 (pivot_cell df vals s t)) (index R)))
                         (sort (remdups (map snd (index df)))))"
    by blast
  from assms(2) show ?thesis
    unfolding cR by (auto dest!: in_set_col)
qed

lemma fill_cell_not_NaN: "fill_cell c v \<noteq> NaN" "NaN \<noteq> fill_cell c v"
  by (simp_all add: fill_cell_def)

lemma returns_frame_no_null:
  assumes "returns_frame env symbols start end rule = Inr R" and "(n, vs) \<in> set (cols R)"
  shows "NaN \<notin> set vs"
proof -
  from returns_frame_InrD[OF assms(1)] obtain df vals where
    cR: "cols R = set_col ''cash'' (replicate (length (index R)) (Fin 0))
                      (map (\<lambda>s. (s, map (\<lambda>t. fill_cell 0 (pivot_cell df vals s t)) (index R)))
                         (sort (remdups (map snd (index df)))))"
    by blast
  from assms(2) show ?thesis
    unfolding cR by (auto dest!: in_set_col simp: fill_cell_not_NaN)
qed

lemma returns_frame_cash:
  assumes "returns_frame env symbols start end rule = Inr R"
  shows "map_of (cols R) ''cash'' = Some (replicate (length (index R)) (Fin 0))"
proof -
  from returns_frame_InrD[OF assms(1)] obtain df vals where
    cR: "cols R = set_col ''cash'' (replicate (length (index R)) (Fin 0))
                      (map (\<lambda>s. (s, map (\<lambda>t. fill_cell 0 (pivot_cell df vals s t)) (index R)))
                         (sort (remdups (map snd (index df)))))"
    by blast
  show ?thesis
    unfolding cR by (simp add: map_of_set_col)
qed

lemma returns_frame_names:
  assumes "returns_frame env symbols start end rule = Inr R"
    and "fan_out env symbols start end rule = Inr dfs"
  shows "fst ` set (cols R) = insert ''cash'' (snd ` set (concat (map index (frames dfs))))"
proof -
  from returns_frame_InrD[OF assms(1)] assms(2) obtain df vals where
    c: "pd_concat dfs = Inr (Panel df)" and
    cR: "cols R = set_col ''cash'' (replicate (length (index R)) (Fin 0))
                      (map (\<lambda>s. (s, map (\<lambda>t. fill_cell 0 (pivot_cell df vals s t)) (index R)))
                         (sort (remdups (map snd (index df)))))"
    by auto
  have "fst ` set (cols R) = insert ''cash'' (snd ` set (index df))"
    unfolding cR names_set_col by (simp add: image_image)
  then show ?thesis
    by (simp add: pd_concat_PanelD[OF c])
qed

lemma returns_frame_missing_cell:
  assumes "returns_frame env symbols start end rule = Inr R"
    and "fan_out env symbols start end rule = Inr dfs"
    and "(s, vs) \<in> set (cols R)" and "j < length (index R)"
    and "(index R ! j, s) \<notin> set (concat (map index (frames dfs)))"
  shows "vs ! j = Fin 0"
proof -
  from returns_frame_InrD[OF assms(1)] assms(2) obtain df vals where
    c: "pd_concat dfs = Inr (Panel df)" and
    cR: "cols R = set_col ''cash'' (replicate (length (index R)) (Fin 0))
                      (map (\<lambda>s. (s, map (\<lambda>t. fill_cell 0 (pivot_cell df vals s t)) (index R)))
                         (sort (remdups (map snd (index df)))))"
    by auto
  from assms(5) have miss: "pivot_cell df vals s (index R ! j) = NaN"
    by (simp add: pd_concat_PanelD[OF c] pivot_cell_missing)
  from assms(3) have "vs = replicate (length (index R)) (Fin 0)
      \<or> vs = map (\<lambda>t. fill_cell 0 (pivot_cell df vals s t)) (index R)"
    unfolding cR by (auto dest!: in_set_col)
  then show ?thesis
    using assms(4) miss by (auto simp: fill_cell_def)
qed

lemma load_ret_InrD:
  assumes "load_ret env symbols start end rule = Inr out"
  shows "\<exists>R. returns_frame env symbols start end rule = Inr R
           \<and> out = filter_rows (\<lambda>t. start \<le> t \<and> t \<le> end) R"
  using assms by (auto simp: load_ret_def split: sum.splits)

lemma map_nth_replicate:
  assumes "\<forall>j\<in>set ps. j < n"
  shows "map (nth (replicate n x)) ps = replicate (length ps) x"
  using assms by (induction ps) auto

lemma filter_positions_bound:
  "\<forall>j\<in>set (filter (\<lambda>j. P (xs ! j)) [0 ..< length xs]). j < length xs"
  by simp

lemma load_cov_InrD:
  assumes "load_cov env symbols start end window rule = Inr out"
  shows "\<exists>R. returns_frame env symbols start end rule = Inr R \<and> 0 \<le> window
           \<and> out = filter_rows (\<lambda>(t, s). start \<le> t \<and> t \<le> end) (dropna (rolling_cov (nat window) R))"
  using assms by (auto simp: load_cov_def Let_def split: sum.splits if_splits)

lemma names_rolling_cov: "map fst (cols (rolling_cov w df)) = map fst (cols df)"
  by (simp add: rolling_cov_def Let_def comp_def case_prod_beta)

lemma tags_rolling_cov: "snd ` set (index (rolling_cov w df)) \<subseteq> fst ` set (cols df)"
  by (force simp: rolling_cov_def Let_def)

lemma names_load_cov:
  assumes "load_cov env symbols start end window rule = Inr out"
    and "returns_frame env symbols start end rule = Inr R"
  shows "map fst (cols out) = map fst (cols R)"
  using load_cov_InrD[OF assms(1)] assms(2)
  by (auto simp: names_filter_rows names_dropna names_rolling_cov)

lemma tags_load_cov:
  assumes "load_cov env symbols start end window rule = Inr out"
    and "returns_frame env symbols start end rule = Inr R"
  shows "snd ` set (index out) \<subseteq> fst ` set (cols R)"
proof -
  from load_cov_InrD[OF assms(1)] assms(2) have
    out: "out = filter_rows (\<lambda>(t, s). start \<le> t \<and> t \<le> end) (dropna (rolling_cov (nat window) R))"
    by auto
  have "set (index out) \<subseteq> set (index (dropna (rolling_cov (nat window) R)))"
    by (auto simp: out index_filter_rows)
  also have "\<dots> \<subseteq> set (index (rolling_cov (nat window) R))"
    by (rule index_dropna_subset)
  finally show ?thesis
    using tags_rolling_cov[of "nat window" R] by blast
qed

section \<open>The bins of the resampler\<close>

lemma bin_start_le: "0 < rule \<Longrightarrow> bin_start origin rule t \<le> t"
  by (simp add: bin_start_def)

lemma bin_start_gt: "0 < rule \<Longrightarrow> t < bin_start origin rule t + rule"
proof -
  assume "0 < rule"
  then have "(t - origin) mod rule < rule"
    by simp
  then show ?thesis
    by (simp add: bin_start_def)
qed

lemma bin_start_div: "bin_start origin rule t = origin + ((t - origin) div rule) * rule"
proof -
  have "(t - origin) = ((t - origin) div rule) * rule + (t - origin) mod rule"
    by simp
  then show ?thesis
    unfolding bin_start_def by linarith
qed

lemma bin_labels_nth:
  assumes "i < length (bin_labels rule ts)"
  shows "bin_labels rule ts ! i = hd (bin_labels rule ts) + int i * rule"
proof (cases ts)
  case Nil
  with assms show ?thesis
    by (simp add: bin_labels_def)
next
  case (Cons t0 rest)
  define lo where "lo = bin_start (t0 - t0 mod day_ms) rule t0"
  define n where "n = nat ((bin_start (t0 - t0 mod day_ms) rule (last ts) - lo) div rule) + 1"
  have labels: "bin_labels rule ts = map (\<lambda>k. lo + int k * rule) [0 ..< n]"
    by (simp add: bin_labels_def Cons Let_def lo_def n_def)
  have "0 < n"
    by (simp add: n_def)
  then have "hd (bin_labels rule ts) = lo"
    by (simp add: labels hd_map upt_conv_Cons)
  moreover from assms have "i < n"
    by (simp add: labels)
  ultimately show ?thesis
    by (simp add: labels)
qed

lemma bin_labels_progression:
  "bin_labels rule ts
     = map (\<lambda>k. hd (bin_labels rule ts) + int k * rule) [0 ..< length (bin_labels rule ts)]"
  by (rule nth_equalityI) (simp_all add: bin_labels_nth)

text \<open>With a positive width, the first row is in the first bin and every row is in some bin.\<close>

lemma bin_labels_hd:
  assumes "ts = t0 # rest"
  shows "bin_labels rule ts \<noteq> [] \<and> hd (bin_labels rule ts) = bin_start (t0 - t0 mod day_ms) rule t0"
proof -
  define lo where "lo = bin_start (t0 - t0 mod day_ms) rule t0"
  define n where "n = nat ((bin_start (t0 - t0 mod day_ms) rule (last ts) - lo) div rule) + 1"
  have labels: "bin_labels rule ts = map (\<lambda>k. lo + int k * rule) [0 ..< n]"
    by (simp add: bin_labels_def assms Let_def lo_def n_def)
  have "0 < n"
    by (simp add: n_def)
  then show ?thesis
    by (simp add: labels hd_map upt_conv_Cons lo_def)
qed

lemma bin_labels_cover:
  assumes "0 < rule" and "sorted ts" and "t \<in> set ts"
  shows "\<exists>i<length (bin_labels rule ts).
           bin_labels rule ts ! i \<le> t \<and> t < bin_labels rule ts ! i + rule"
proof -
  from assms(3) obtain t0 rest where ts: "ts = t0 # rest"
    by (cases ts) auto
  define origin where "origin = t0 - t0 mod day_ms"
  define q where "q = (\<lambda>u. (u - origin) div rule)"
  define n where "n = nat ((bin_start origin rule (last ts) - bin_start origin rule t0) div rule) + 1"
  have labels: "bin_labels rule ts = map (\<lambda>k. bin_start origin rule t0 + int k * rule) [0 ..< n]"
    by (simp add: bin_labels_def ts Let_def origin_def n_def)
  have bs: "bin_start origin rule u = origin + q u * rule" for u
    by (simp add: bin_start_div q_def)
  have n: "n = nat (q (last ts) - q t0) + 1"
    using assms(1) by (simp add: n_def bs flip: left_diff_distrib)
  from assms(2,3) have lo: "t0 \<le> t"
    by (auto simp: ts)
  from assms(2,3) have hi: "t \<le> last ts"
    by (metis in_set_conv_nth last_conv_nth length_pos_if_in_set less_Suc_eq_le
        sorted_nth_mono Suc_pred' order_refl length_greater_0_conv)
  from lo assms(1) have q1: "q t0 \<le> q t"
    by (simp add: q_def zdiv_mono1)
  from hi assms(1) have q2: "q t \<le> q (last ts)"
    by (simp add: q_def zdiv_mono1)
  define i where "i = nat (q t - q t0)"
  from q1 q2 have i: "i < n"
    by (simp add: i_def n)
  have "bin_labels rule ts ! i = bin_start origin rule t"
    using i q1 by (simp add: labels bs i_def algebra_simps)
  with bin_start_le[OF assms(1), of origin t] bin_start_gt[OF assms(1), of t origin] i
  show ?thesis
    by (auto simp: labels)
qed

section \<open>Forward filling\<close>

lemma length_ffill_from: "length (ffill_from p vs) = length vs"
  by (induction vs arbitrary: p) auto

lemma ffill_from_keep:
  "i < length vs \<Longrightarrow> vs ! i \<noteq> NaN \<Longrightarrow> ffill_from p vs ! i = vs ! i"
proof (induction vs arbitrary: p i)
  case Nil
  then show ?case by simp
next
  case (Cons v vs)
  then show ?case by (cases i) auto
qed

lemma ffill_from_gap:
  "0 < i \<Longrightarrow> i < length vs \<Longrightarrow> vs ! i = NaN \<Longrightarrow> ffill_from p vs ! i = ffill_from p vs ! (i - 1)"
proof (induction vs arbitrary: p i)
  case Nil
  then show ?case by simp
next
  case (Cons v vs)
  from Cons.prems obtain j where i: "i = Suc j"
    by (cases i) auto
  show ?case
  proof (cases j)
    case 0
    with Cons.prems i obtain w ws where vs: "vs = w # ws" and "w = NaN"
      by (cases vs) auto
    then show ?thesis
      by (simp add: i 0)
  next
    case (Suc k)
    with Cons.prems i have "ffill_from q vs ! j = ffill_from q vs ! (j - 1)" for q
      by (intro Cons.IH) auto
    then show ?thesis
      by (simp add: i Suc)
  qed
qed

lemma ffill_from_fin_id: "list_all is_fin vs \<Longrightarrow> ffill_from p vs = vs"
  by (induction vs arbitrary: p) auto

lemma ffill_from_all_fin:
  "is_fin p \<Longrightarrow> list_all (\<lambda>v. v = NaN \<or> is_fin v) vs \<Longrightarrow> list_all is_fin (ffill_from p vs)"
  by (induction vs arbitrary: p) auto

lemma ffill_from_all_fin_hd:
  assumes "is_fin v" and "list_all (\<lambda>v. v = NaN \<or> is_fin v) vs"
  shows "list_all is_fin (ffill_from NaN (v # vs))"
  using assms ffill_from_all_fin[of v vs] by auto

lemma replaced_fin_id: "list_all is_fin vs \<Longrightarrow> map replaced vs = vs"
  by (induction vs) (auto simp: replaced_def)

lemma is_fin_conv: "is_fin v \<longleftrightarrow> (\<exists>a. v = Fin a)"
  by (cases v) auto

lemma all_fin_conv: "list_all is_fin vs \<longleftrightarrow> (\<exists>as. vs = map Fin as)"
proof
  assume "list_all is_fin vs"
  then show "\<exists>as. vs = map Fin as"
  proof (induction vs)
    case Nil
    then show ?case by simp
  next
    case (Cons v vs)
    then obtain a as where "v = Fin a" and "vs = map Fin as"
      by (auto simp: is_fin_conv)
    then have "v # vs = map Fin (a # as)"
      by simp
    then show ?case
      by (rule exI)
  qed
next
  assume "\<exists>as. vs = map Fin as"
  then show "list_all is_fin vs"
    by (auto simp: list_all_iff)
qed

section \<open>The columns of the loader's frame\<close>

lemma index_add_all_ta_features: "index (add_all_ta_features env df) = index df"
proof -
  have "index (foldl (\<lambda>d (n, vs). set_column n vs d) d fs) = index d" for fs and d :: "int frame"
    by (induction fs arbitrary: d) (auto simp: set_column_def)
  then show ?thesis
    by (simp add: add_all_ta_features_def)
qed

lemma map_of_foldl_set_column:
  "n \<notin> fst ` set fs
     \<Longrightarrow> map_of (cols (foldl (\<lambda>d (n, vs). set_column n vs d) df fs)) n = map_of (cols df) n"
  by (induction fs arbitrary: df) (auto simp: set_column_def map_of_set_col)

lemma distinct_foldl_set_column:
  "distinct (map fst (cols df))
     \<Longrightarrow> distinct (map fst (cols (foldl (\<lambda>d (n, vs). set_column n vs d) df fs)))"
  by (induction fs arbitrary: df) (auto simp: set_column_def distinct_set_col)

lemma base_column_kept:
  assumes "keeps_base env" and "n \<in> set base_columns"
  shows "map_of (cols (add_all_ta_features env df)) n = map_of (cols df) n"
  unfolding add_all_ta_features_def
  using assms by (intro map_of_foldl_set_column) (auto simp: keeps_base_def)

lemma distinct_add_all_ta_features:
  "distinct (map fst (cols df)) \<Longrightarrow> distinct (map fst (cols (add_all_ta_features env df)))"
  unfolding add_all_ta_features_def by (rule distinct_foldl_set_column)

text \<open>The last three steps of the loader, column by column.\<close>

lemma cleaned_cols:
  "cols (ffill (dropna_cols (replace_inf df)))
     = map (\<lambda>(n, vs). (n, ffill_from NaN vs))
         (filter (\<lambda>(n, vs). \<not> list_all (\<lambda>v. v = NaN) vs)
            (map (\<lambda>(n, vs). (n, map replaced vs)) (cols df)))"
  by (simp add: ffill_def dropna_cols_def replace_inf_def map_cols_def)

lemma cleaned_fin_column:
  assumes "map_of (cols df) n = Some v" and "list_all is_fin v" and "v \<noteq> []"
  shows "map_of (cols (ffill (dropna_cols (replace_inf df)))) n = Some v"
proof -
  have 1: "map_of (map (\<lambda>(n, vs). (n, map replaced vs)) (cols df)) n = Some v"
    using assms(1,2) by (simp add: map_of_mapped_cols replaced_fin_id)
  from assms(2,3) have "\<not> list_all (\<lambda>x. x = NaN) v"
    by (cases v) auto
  with 1 have "map_of (filter (\<lambda>(n, vs). \<not> list_all (\<lambda>v. v = NaN) vs)
                  (map (\<lambda>(n, vs). (n, map replaced vs)) (cols df))) n = Some v"
    by (intro map_of_filter_in) auto
  then show ?thesis
    using assms(2) by (simp add: cleaned_cols map_of_mapped_cols ffill_from_fin_id)
qed

lemma cleaned_column:
  assumes "distinct (map fst (cols df))"
    and "map_of (cols (ffill (dropna_cols (replace_inf df)))) n = Some r"
  shows "\<exists>v. map_of (cols df) n = Some v \<and> r = ffill_from NaN (map replaced v)"
proof -
  from assms(2) obtain v' where
    1: "map_of (filter (\<lambda>(n, vs). \<not> list_all (\<lambda>v. v = NaN) vs)
                  (map (\<lambda>(n, vs). (n, map replaced vs)) (cols df))) n = Some v'"
    and r: "r = ffill_from NaN v'"
    by (auto simp: cleaned_cols map_of_mapped_cols)
  from map_of_SomeD[OF 1] obtain v where v: "(n, v) \<in> set (cols df)" and "v' = map replaced v"
    by auto
  with assms(1) r show ?thesis
    by auto
qed

section \<open>The resampled columns\<close>

lemma length_resample_groups:
  "length (resample_groups rule rows) = length (resample_labels rule rows)"
  by (simp add: resample_groups_def)

lemma resample_groups_nth:
  "i < length (resample_labels rule rows)
     \<Longrightarrow> resample_groups rule rows ! i
           = bin_rows rule (sort_key b_time rows) (resample_labels rule rows ! i)"
  by (simp add: resample_groups_def)

lemma bin_rows_empty_iff:
  "bin_rows rule (sort_key b_time rows) l = []
     \<longleftrightarrow> (\<forall>r\<in>set rows. \<not> (l \<le> b_time r \<and> b_time r < l + rule))"
  by (simp add: bin_rows_def filter_empty_conv)

lemma first_group:
  assumes "0 < rule" and "rows \<noteq> []"
  shows "\<exists>g gs. resample_groups rule rows = g # gs \<and> g \<noteq> []"
proof -
  from assms(2) obtain r0 rest where srt: "sort_key b_time rows = r0 # rest"
    by (cases "sort_key b_time rows") (auto dest: arg_cong[where f = length])
  define origin where "origin = b_time r0 - b_time r0 mod day_ms"
  have ts: "map b_time (sort_key b_time rows) = b_time r0 # map b_time rest"
    by (simp add: srt)
  from bin_labels_hd[OF ts, of rule] obtain l ls where
    labels: "resample_labels rule rows = l # ls" and l: "l = bin_start origin rule (b_time r0)"
    by (cases "resample_labels rule rows") (auto simp: resample_labels_def origin_def)
  have "l \<le> b_time r0" and "b_time r0 < l + rule"
    unfolding l using assms(1) by (rule bin_start_le, rule bin_start_gt)
  then have "bin_rows rule (sort_key b_time rows) l \<noteq> []"
    by (simp add: bin_rows_def srt)
  then show ?thesis
    by (simp add: resample_groups_def labels)
qed

lemma agg_empty:
  "agg_first f [] = NaN" "agg_last f [] = NaN" "agg_max f [] = NaN" "agg_min f [] = NaN"
  "agg_sum f [] = Fin 0"
  by (simp_all add: agg_first_def agg_last_def agg_max_def agg_min_def agg_sum_def)

lemma agg_fin:
  "g \<noteq> [] \<Longrightarrow> is_fin (agg_first f g)" "g \<noteq> [] \<Longrightarrow> is_fin (agg_last f g)"
  "g \<noteq> [] \<Longrightarrow> is_fin (agg_max f g)" "g \<noteq> [] \<Longrightarrow> is_fin (agg_min f g)"
  "is_fin (agg_sum f g)"
  by (simp_all add: agg_first_def agg_last_def agg_max_def agg_min_def agg_sum_def
               split: list.splits)

lemma agg_fin_or_null:
  "agg_first f g = NaN \<or> is_fin (agg_first f g)" "agg_last f g = NaN \<or> is_fin (agg_last f g)"
  "agg_max f g = NaN \<or> is_fin (agg_max f g)" "agg_min f g = NaN \<or> is_fin (agg_min f g)"
  by (simp_all add: agg_first_def agg_last_def agg_max_def agg_min_def split: list.splits)

text \<open>
  A column that is null exactly on the empty bins is all numbers once it is forward
  filled, because the first bin is never empty.
\<close>

lemma filled_column_fin:
  assumes "0 < rule" and "rows \<noteq> []"
    and "\<And>g. g \<noteq> [] \<Longrightarrow> is_fin (agg g)" and "\<And>g. agg g = NaN \<or> is_fin (agg g)"
  shows "list_all is_fin (ffill_from NaN (map agg (resample_groups rule rows)))"
proof -
  from first_group[OF assms(1,2)] obtain g gs where
    groups: "resample_groups rule rows = g # gs" and g: "g \<noteq> []"
    by blast
  have "list_all (\<lambda>v. v = NaN \<or> is_fin v) (map agg gs)"
    using assms(4) by (simp add: list_all_iff)
  with assms(3)[OF g] show ?thesis
    unfolding groups list.map by (intro ffill_from_all_fin_hd)
qed

lemma filled_column_gap:
  assumes "0 < rule" and "rows \<noteq> []" and "agg [] = NaN"
    and "i < length (resample_labels rule rows)"
    and "\<forall>r\<in>set rows. \<not> (resample_labels rule rows ! i \<le> b_time r
                           \<and> b_time r < resample_labels rule rows ! i + rule)"
  shows "0 < i \<and> ffill_from NaN (map agg (resample_groups rule rows)) ! i
                  = ffill_from NaN (map agg (resample_groups rule rows)) ! (i - 1)"
proof -
  from assms(4,5) have empty: "resample_groups rule rows ! i = []"
    by (simp add: resample_groups_nth bin_rows_empty_iff)
  from first_group[OF assms(1,2)] obtain g gs where
    groups: "resample_groups rule rows = g # gs" and g: "g \<noteq> []"
    by blast
  with empty have pos: "0 < i"
    by (cases i) auto
  from assms(4) have "i < length (map agg (resample_groups rule rows))"
    by (simp add: length_resample_groups)
  moreover from this empty assms(3) have "map agg (resample_groups rule rows) ! i = NaN"
    by simp
  ultimately show ?thesis
    using pos by (simp add: ffill_from_gap)
qed

lemma volume_column_gap:
  assumes "i < length (resample_labels rule rows)"
    and "\<forall>r\<in>set rows. \<not> (resample_labels rule rows ! i \<le> b_time r
                           \<and> b_time r < resample_labels rule rows ! i + rule)"
  shows "map (agg_sum f) (resample_groups rule rows) ! i = Fin 0"
proof -
  from assms have "resample_groups rule rows ! i = []"
    by (simp add: resample_groups_nth bin_rows_empty_iff)
  with assms(1) show ?thesis
    by (simp add: length_resample_groups agg_empty)
qed

section \<open>The loader's frame, column by column\<close>

text \<open>The frame after \<open>resample\<close>, \<open>agg\<close> and \<open>ffill\<close>.\<close>

lemma resampled_frame:
  "ffill (resample_agg rule rows)
     = \<lparr>index = resample_labels rule rows,
        cols = [(''open'', ffill_from NaN (map (agg_first b_open) (resample_groups rule rows))),
                (''high'', ffill_from NaN (map (agg_max b_high) (resample_groups rule rows))),
                (''low'', ffill_from NaN (map (agg_min b_low) (resample_groups rule rows))),
                (''close'', ffill_from NaN (map (agg_last b_close) (resample_groups rule rows))),
                (''volume'', ffill_from NaN (map (agg_sum b_volume) (resample_groups rule rows)))]\<rparr>"
  by (simp add: ffill_def map_cols_def resample_agg_def Let_def)

lemma load_data_Panel:
  assumes "load_data env s a b rule = Inr (ws, Panel p)"
  obtains raw rows cl where
    "files env s = Some raw"
    "rows = filter (\<lambda>r. a \<le> b_time r \<and> b_time r < b) raw"
    "cl = ffill_from NaN (map (agg_last b_close) (resample_groups rule rows))"
    "30 \<le> length (resample_labels rule rows)"
    "index p = map (\<lambda>t. (t, s)) (resample_labels rule rows)"
    "cols p = cols (ffill (dropna_cols (replace_inf (add_all_ta_features env
                 (set_column ''ret'' (pct_change cl) (ffill (resample_agg rule rows)))))))"
proof -
  from assms obtain raw where raw: "files env s = Some raw"
    by (auto simp: load_data_def split: option.splits)
  define rows where "rows = filter (\<lambda>r. a \<le> b_time r \<and> b_time r < b) raw"
  define cl where "cl = ffill_from NaN (map (agg_last b_close) (resample_groups rule rows))"
  define df0 where "df0 = ffill (resample_agg rule rows)"
  define df1 where "df1 = set_column ''ret'' (pct_change cl) df0"
  define df2 where "df2 = ffill (dropna_cols (replace_inf (add_all_ta_features env df1)))"
  have close: "map_of (cols df0) ''close'' = Some cl"
    by (simp add: df0_def resampled_frame cl_def)
  have idx1: "index df1 = resample_labels rule rows"
    by (simp add: df1_def df0_def set_column_def resampled_frame)
  have idx2: "index df2 = index df1"
    by (simp add: df2_def ffill_def dropna_cols_def replace_inf_def map_cols_def
                  index_add_all_ta_features)
  have "load_data env s a b rule
          = (if index df1 = [] \<or> length (index df1) < 30
             then Inr ([insufficient_warning s], EmptyPanel)
             else Inr ([], Panel \<lparr>index = map (\<lambda>t. (t, s)) (index df2), cols = cols df2\<rparr>))"
    unfolding load_data_def raw option.case Let_def rows_def[symmetric] df0_def[symmetric]
      close df1_def[symmetric] df2_def[symmetric] ..
  with assms have "30 \<le> length (resample_labels rule rows)
      \<and> index p = map (\<lambda>t. (t, s)) (resample_labels rule rows) \<and> cols p = cols df2"
    by (auto simp: idx1 idx2 split: if_splits)
  with raw rows_def cl_def that show ?thesis
    unfolding df2_def df1_def df0_def by blast
qed

lemma ffill_from_null_head: "ffill_from NaN (NaN # vs) ! 0 = NaN"
  by simp

lemma ffill_from_Nil_iff: "ffill_from p vs = [] \<longleftrightarrow> vs = []"
  by (cases vs) auto

lemma cleaned_column_kept:
  assumes "map_of (cols df) n = Some v" and "\<not> list_all (\<lambda>x. x = NaN) (map replaced v)"
  shows "map_of (cols (ffill (dropna_cols (replace_inf df)))) n
           = Some (ffill_from NaN (map replaced v))"
proof -
  have 1: "map_of (map (\<lambda>(n, vs). (n, map replaced vs)) (cols df)) n = Some (map replaced v)"
    using assms(1) by (simp add: map_of_mapped_cols)
  with assms(2) have "map_of (filter (\<lambda>(n, vs). \<not> list_all (\<lambda>v. v = NaN) vs)
                  (map (\<lambda>(n, vs). (n, map replaced vs)) (cols df))) n = Some (map replaced v)"
    by (intro map_of_filter_in) auto
  then show ?thesis
    by (simp add: cleaned_cols map_of_mapped_cols)
qed

lemma length_pct_change: "length (pct_change vs) = length vs"
  by (cases vs) (auto simp: pct_change_def Let_def length_ffill_from split: list.splits if_splits)

lemma pct_change_fin_0: "cs \<noteq> [] \<Longrightarrow> pct_change (map Fin cs) ! 0 = NaN"
  by (cases cs) (auto simp: pct_change_def Let_def)

lemma pct_change_fin_nth:
  assumes "0 < t" and "t < length cs"
  shows "pct_change (map Fin cs) ! t = fsub (fdiv (Fin (cs ! t)) (Fin (cs ! (t - 1)))) (Fin 1)"
proof -
  have fin: "ffill_from NaN (map Fin cs) = map Fin cs"
    by (rule ffill_from_fin_id) (simp add: list_all_iff)
  from assms obtain c rest where cs: "cs = c # rest"
    by (cases cs) auto
  from assms obtain u where t: "t = Suc u"
    by (cases t) auto
  from assms have u: "u < length rest"
    by (simp add: cs t)
  have "pct_change (map Fin cs)
          = NaN # map (\<lambda>(prev, cur). fsub (fdiv cur prev) (Fin 1))
                    (zip (map Fin cs) (map Fin rest))"
    unfolding pct_change_def fin Let_def by (simp add: cs)
  then have "pct_change (map Fin cs) ! t
          = fsub (fdiv (map Fin rest ! u) (map Fin cs ! u)) (Fin 1)"
    using u by (simp add: t cs)
  moreover have "map Fin rest ! u = Fin (cs ! t)"
    using u by (simp add: t cs)
  moreover have "map Fin cs ! u = Fin (cs ! (t - 1))"
    using u by (simp add: t nth_map cs del: list.map)
  ultimately show ?thesis
    by (simp del: fdiv.simps fsub.simps)
qed

text \<open>The five aggregated columns of a panel are the forward-filled columns of the bins.\<close>

lemma panel_base_column:
  assumes "cols p = cols (ffill (dropna_cols (replace_inf (add_all_ta_features env
                 (set_column ''ret'' rr (ffill (resample_agg rule rows)))))))"
    and "keeps_base env" and "0 < rule" and "rows \<noteq> []"
  shows "map_of (cols p) ''open''
           = Some (ffill_from NaN (map (agg_first b_open) (resample_groups rule rows)))"
    and "map_of (cols p) ''high''
           = Some (ffill_from NaN (map (agg_max b_high) (resample_groups rule rows)))"
    and "map_of (cols p) ''low''
           = Some (ffill_from NaN (map (agg_min b_low) (resample_groups rule rows)))"
    and "map_of (cols p) ''close''
           = Some (ffill_from NaN (map (agg_last b_close) (resample_groups rule rows)))"
    and "map_of (cols p) ''volume''
           = Some (map (agg_sum b_volume) (resample_groups rule rows))"
proof -
  define df1 where "df1 = set_column ''ret'' rr (ffill (resample_agg rule rows))"
  have ne: "resample_groups rule rows \<noteq> []"
    using first_group[OF assms(3,4)] by auto
  have vol: "list_all is_fin (map (agg_sum b_volume) (resample_groups rule rows))"
    by (simp add: list_all_iff agg_fin)
  have keep: "map_of (cols (add_all_ta_features env df1)) n = map_of (cols df1) n"
    if "n \<in> set base_columns" for n
    by (rule base_column_kept[OF assms(2) that])
  have look: "map_of (cols p) n = Some v"
    if "n \<in> set base_columns" and "map_of (cols df1) n = Some v" and "list_all is_fin v"
      and "v \<noteq> []" for n v
    unfolding assms(1) df1_def[symmetric]
    by (rule cleaned_fin_column) (simp_all add: keep that)
  show "map_of (cols p) ''open''
           = Some (ffill_from NaN (map (agg_first b_open) (resample_groups rule rows)))"
    by (rule look)
       (simp_all add: base_columns_def df1_def set_column_def resampled_frame
          filled_column_fin[OF assms(3,4)] agg_fin agg_fin_or_null ne ffill_from_Nil_iff)
  show "map_of (cols p) ''high''
           = Some (ffill_from NaN (map (agg_max b_high) (resample_groups rule rows)))"
    by (rule look)
       (simp_all add: base_columns_def df1_def set_column_def resampled_frame
          filled_column_fin[OF assms(3,4)] agg_fin agg_fin_or_null ne ffill_from_Nil_iff)
  show "map_of (cols p) ''low''
           = Some (ffill_from NaN (map (agg_min b_low) (resample_groups rule rows)))"
    by (rule look)
       (simp_all add: base_columns_def df1_def set_column_def resampled_frame
          filled_column_fin[OF assms(3,4)] agg_fin agg_fin_or_null ne ffill_from_Nil_iff)
  show "map_of (cols p) ''close''
           = Some (ffill_from NaN (map (agg_last b_close) (resample_groups rule rows)))"
    by (rule look)
       (simp_all add: base_columns_def df1_def set_column_def resampled_frame
          filled_column_fin[OF assms(3,4)] agg_fin agg_fin_or_null ne ffill_from_Nil_iff)
  show "map_of (cols p) ''volume''
           = Some (map (agg_sum b_volume) (resample_groups rule rows))"
    by (rule look)
       (simp_all add: base_columns_def df1_def set_column_def resampled_frame
          ffill_from_fin_id[OF vol] vol ne)
qed

section \<open>The claims\<close>

text \<open>
  C5.  Whatever range the loaders computed on, every timestamp of a panel returned by
  \<open>load_market_data\<close>, \<open>load_features\<close>, \<open>load_ret\<close> or \<open>load_cov\<close> for the range
  \<open>[start, end]\<close> satisfies \<open>start \<le> t \<le> end\<close>.
\<close>

theorem views_clipped:
  "(load_market_data env symbols start end rule = Inr m
      \<longrightarrow> (\<forall>(t, s)\<in>set (index m). start \<le> t \<and> t \<le> end))
 \<and> (load_features env symbols start end rule = Inr f
      \<longrightarrow> (\<forall>(t, s)\<in>set (index f). start \<le> t \<and> t \<le> end))
 \<and> (load_ret env symbols start end rule = Inr r
      \<longrightarrow> (\<forall>t\<in>set (index r). start \<le> t \<and> t \<le> end))
 \<and> (load_cov env symbols start end window rule = Inr c
      \<longrightarrow> (\<forall>(t, s)\<in>set (index c). start \<le> t \<and> t \<le> end))"
proof (intro conjI impI)
  assume "load_market_data env symbols start end rule = Inr m"
  then show "\<forall>(t, s)\<in>set (index m). start \<le> t \<and> t \<le> end"
    by (auto simp: load_market_data_def index_filter_rows split: sum.splits)
next
  assume "load_features env symbols start end rule = Inr f"
  then show "\<forall>(t, s)\<in>set (index f). start \<le> t \<and> t \<le> end"
    by (auto simp: load_features_def index_filter_rows split: sum.splits)
next
  assume "load_ret env symbols start end rule = Inr r"
  then show "\<forall>t\<in>set (index r). start \<le> t \<and> t \<le> end"
    by (auto simp: load_ret_def index_filter_rows split: sum.splits)
next
  assume "load_cov env symbols start end window rule = Inr c"
  then show "\<forall>(t, s)\<in>set (index c). start \<le> t \<and> t \<le> end"
    by (auto simp: load_cov_def Let_def index_filter_rows split: sum.splits if_splits)
qed

theorem views_clipped_witness:
  "load_market_data demo_env demo_symbols demo_start demo_end 3600000 = Inr demo_market
 \<and> list_all (\<lambda>(t, s). demo_start \<le> t \<and> t \<le> demo_end) (index demo_market)
 \<and> load_features demo_env demo_symbols demo_start demo_end 3600000 = Inr demo_feature_view
 \<and> list_all (\<lambda>(t, s). demo_start \<le> t \<and> t \<le> demo_end) (index demo_feature_view)
 \<and> load_ret demo_env demo_symbols demo_start demo_end 3600000 = Inr demo_ret_view
 \<and> list_all (\<lambda>t. demo_start \<le> t \<and> t \<le> demo_end) (index demo_ret_view)
 \<and> load_cov demo_env demo_symbols demo_start demo_end 3 3600000 = Inr demo_cov_view
 \<and> list_all (\<lambda>(t, s). demo_start \<le> t \<and> t \<le> demo_end) (index demo_cov_view)"
  using views_clipped[of demo_env demo_symbols demo_start demo_end 3600000 demo_market
      demo_feature_view demo_ret_view 3 demo_cov_view]
  by (simp add: demo_load_market_data demo_load_features demo_load_ret demo_load_cov list_all_iff)

text \<open>
  C7.  When a requested symbol has no raw file, \<open>load_data\<close> raises for it, and each of the
  four views of a batch that contains the symbol ends with that error instead of a panel.
\<close>

theorem missing_file_aborts_batch:
  assumes "s \<in> set symbols" and "files env s = None"
  shows "load_data env s (minus_6_months env start) end rule = Inl FileNotFoundError
       \<and> load_market_data env symbols start end rule = Inl FileNotFoundError
       \<and> load_features env symbols start end rule = Inl FileNotFoundError
       \<and> load_ret env symbols start end rule = Inl FileNotFoundError
       \<and> load_cov env symbols start end window rule = Inl FileNotFoundError"
  using fan_out_missing[OF assms, of start "end" rule] load_data_missing[OF assms(2)]
  by (simp add: load_market_data_def load_features_def load_ret_def load_cov_def
                returns_frame_def)

theorem missing_file_aborts_batch_witness:
  "''c'' \<in> set [''a'', ''c'', ''b'']
 \<and> files demo_env ''c'' = None
 \<and> load_data demo_env ''c'' (minus_6_months demo_env demo_start) demo_end 3600000
      = Inl FileNotFoundError
 \<and> load_market_data demo_env [''a'', ''c'', ''b''] demo_start demo_end 3600000
      = Inl FileNotFoundError
 \<and> load_features demo_env [''a'', ''c'', ''b''] demo_start demo_end 3600000
      = Inl FileNotFoundError
 \<and> load_ret demo_env [''a'', ''c'', ''b''] demo_start demo_end 3600000 = Inl FileNotFoundError
 \<and> load_cov demo_env [''a'', ''c'', ''b''] demo_start demo_end 180 3600000
      = Inl FileNotFoundError"
proof -
  have mem: "''c'' \<in> set [''a'', ''c'', ''b'']"
    by simp
  have none: "files demo_env ''c'' = None"
    by (simp add: demo_env_def)
  from missing_file_aborts_batch[OF mem none, of demo_start demo_end 3600000 180] mem none
  show ?thesis
    by simp
qed

text \<open>
  C10.  A panel returned by \<open>load_features\<close> has no column named \<open>open\<close>, \<open>high\<close>, \<open>low\<close>,
  \<open>close\<close>, \<open>volume\<close>, \<open>trend_psar_down\<close> or \<open>trend_psar_up\<close>, whatever symbols are requested.
\<close>

theorem features_exclude_raw_and_psar:
  assumes "load_features env symbols start end rule = Inr out"
  shows "set (map fst (cols out))
           \<inter> {''open'', ''high'', ''low'', ''close'', ''volume'',
              ''trend_psar_down'', ''trend_psar_up''} = {}"
proof -
  from assms obtain df1 df2 df3 where
    d1: "drop_cols [''open'', ''high'', ''low'', ''close'', ''volume''] df1 = Inr df2" and
    d2: "drop_cols [''trend_psar_down'', ''trend_psar_up''] df2 = Inr df3" and
    out: "out = filter_rows (\<lambda>(t, s). start \<le> t \<and> t \<le> end) df3"
    by (auto simp: load_features_def split: sum.splits)
  have n3: "set (map fst (cols df3)) \<inter> set [''trend_psar_down'', ''trend_psar_up''] = {}"
    using d2 by (rule names_drop_cols)
  have "set (map fst (cols df3)) \<subseteq> set (map fst (cols df2))"
    using d2 by (rule names_drop_cols_subset)
  moreover have "set (map fst (cols df2)) \<inter> set [''open'', ''high'', ''low'', ''close'', ''volume''] = {}"
    using d1 by (rule names_drop_cols)
  ultimately have n2: "set (map fst (cols df3)) \<inter> set [''open'', ''high'', ''low'', ''close'', ''volume''] = {}"
    by blast
  have "map fst (cols out) = map fst (cols df3)"
    unfolding out by (rule names_filter_rows)
  with n2 n3 show ?thesis
    by auto
qed

theorem features_exclude_raw_and_psar_witness:
  "load_features demo_env demo_symbols demo_start demo_end 3600000 = Inr demo_feature_view
 \<and> set (map fst (cols demo_feature_view))
      \<inter> {''open'', ''high'', ''low'', ''close'', ''volume'',
         ''trend_psar_down'', ''trend_psar_up''} = {}"
  using features_exclude_raw_and_psar[OF demo_load_features] demo_load_features
  by simp

text \<open>
  C8.  A panel returned by \<open>load_ret\<close> has a column \<open>cash\<close> that is zero at every
  timestamp, whatever symbols are requested; no cell of the panel is null, and a cell whose
  (time, symbol) pair no loader returned is zero.
\<close>

theorem returns_cash_zero_and_filled:
  assumes "load_ret env symbols start end rule = Inr out"
  shows "map_of (cols out) ''cash'' = Some (replicate (length (index out)) (Fin 0))
       \<and> (\<forall>(s, vs)\<in>set (cols out). length vs = length (index out) \<and> NaN \<notin> set vs)
       \<and> (\<forall>(s, vs)\<in>set (cols out). \<forall>i<length (index out).
             (index out ! i, s) \<notin> set (loaded_keys env symbols start end rule)
               \<longrightarrow> vs ! i = Fin 0)"
proof -
  from load_ret_InrD[OF assms] obtain R where
    R: "returns_frame env symbols start end rule = Inr R" and
    out: "out = filter_rows (\<lambda>t. start \<le> t \<and> t \<le> end) R"
    by blast
  define ps where "ps = filter (\<lambda>j. start \<le> index R ! j \<and> index R ! j \<le> end) [0 ..< length (index R)]"
  have out': "out = take_rows ps R"
    by (simp add: out filter_rows_def ps_def)
  have bound: "\<forall>j\<in>set ps. j < length (index R)"
    by (simp add: ps_def)
  have len: "length (index out) = length ps"
    by (simp add: out' index_take_rows)
  from returns_frame_InrD[OF R] obtain dfs where dfs: "fan_out env symbols start end rule = Inr dfs"
    by blast
  have keys: "loaded_keys env symbols start end rule = concat (map index (frames dfs))"
    by (simp add: loaded_keys_def dfs)
  have cash: "map_of (cols out) ''cash'' = Some (replicate (length (index out)) (Fin 0))"
    by (simp add: out' map_of_take_rows returns_frame_cash[OF R] map_nth_replicate[OF bound]
                  index_take_rows)
  have cells: "length vs = length (index out) \<and> NaN \<notin> set vs
        \<and> (\<forall>i<length (index out).
              (index out ! i, s) \<notin> set (loaded_keys env symbols start end rule) \<longrightarrow> vs ! i = Fin 0)"
    if "(s, vs) \<in> set (cols out)" for s vs
  proof -
    from that obtain vs' where vs': "(s, vs') \<in> set (cols R)" and vs: "vs = map (nth vs') ps"
      unfolding out' in_cols_take_rows by blast
    have l': "length vs' = length (index R)"
      by (rule returns_frame_lengths[OF R vs'])
    have "set vs \<subseteq> set vs'"
      unfolding vs by (rule set_map_nth_subset) (simp add: l' bound)
    with returns_frame_no_null[OF R vs'] have nonull: "NaN \<notin> set vs"
      by blast
    have miss: "vs ! i = Fin 0"
      if i: "i < length (index out)"
        and k: "(index out ! i, s) \<notin> set (loaded_keys env symbols start end rule)" for i
    proof -
      from i have i': "i < length ps"
        by (simp add: len)
      then have j: "ps ! i < length (index R)"
        using bound by simp
      have "index out ! i = index R ! (ps ! i)"
        by (simp add: out' index_take_rows i')
      with k have "(index R ! (ps ! i), s) \<notin> set (concat (map index (frames dfs)))"
        by (simp add: keys)
      from returns_frame_missing_cell[OF R dfs vs' j this] show ?thesis
        by (simp add: vs i')
    qed
    from nonull miss show ?thesis
      by (simp add: vs len)
  qed
  from cash cells show ?thesis
    by blast
qed

theorem returns_cash_zero_and_filled_witness:
  "load_ret demo_env demo_symbols demo_start demo_end 3600000 = Inr demo_ret_view
 \<and> map_of (cols demo_ret_view) ''cash'' = Some (replicate (length (index demo_ret_view)) (Fin 0))
 \<and> list_all (\<lambda>(s, vs). length vs = length (index demo_ret_view) \<and> NaN \<notin> set vs)
      (cols demo_ret_view)
 \<and> (''a'', [Fin 0, Fin 0, Fin (3 / 5), Fin 0]) \<in> set (cols demo_ret_view)
 \<and> (index demo_ret_view ! 3, ''a'') \<notin> set (loaded_keys demo_env demo_symbols demo_start demo_end 3600000)
 \<and> [Fin 0, Fin 0, Fin (3 / 5), Fin 0] ! 3 = Fin 0"
proof -
  have k: "(index demo_ret_view ! 3, ''a'') \<notin> set (loaded_keys demo_env demo_symbols demo_start demo_end 3600000)"
    by code_simp
  have c: "(''a'', [Fin 0, Fin 0, Fin (3 / 5), Fin 0]) \<in> set (cols demo_ret_view)"
    by (simp add: demo_ret_view_def)
  have l: "(3::nat) < length (index demo_ret_view)"
    by (simp add: demo_ret_view_def)
  from returns_cash_zero_and_filled[OF demo_load_ret] demo_load_ret k c l show ?thesis
    by (auto simp: list_all_iff)
qed

text \<open>
  C2, as the code has it.  A requested symbol that has no record in the range loaded (six
  months before \<open>start\<close> up to \<open>end\<close>) has no row in the market-data and feature views, and
  no column in the returns and covariance views either, unless it is named \<open>cash\<close>:
  \<open>fillna(0)\<close> fills the cells of the columns that the pivot made and adds no column.
\<close>

theorem no_data_symbol_absent:
  assumes "files env s = Some raw"
    and "\<forall>r\<in>set raw. \<not> (minus_6_months env start \<le> b_time r \<and> b_time r < end)"
  shows "(load_market_data env symbols start end rule = Inr m \<longrightarrow> s \<notin> snd ` set (index m))
       \<and> (load_features env symbols start end rule = Inr f \<longrightarrow> s \<notin> snd ` set (index f))
       \<and> (load_ret env symbols start end rule = Inr r \<longrightarrow> s \<noteq> ''cash''
            \<longrightarrow> s \<notin> fst ` set (cols r))
       \<and> (load_cov env symbols start end window rule = Inr c \<longrightarrow> s \<noteq> ''cash''
            \<longrightarrow> s \<notin> fst ` set (cols c) \<and> s \<notin> snd ` set (index c))"
proof -
  have empty: "load_data env s (minus_6_months env start) end rule
                 = Inr ([insufficient_warning s], EmptyPanel)"
    by (rule load_data_no_rows[OF assms])
  have tags: "s \<notin> snd ` set (concat (map index (frames dfs)))"
    if "fan_out env symbols start end rule = Inr dfs" for dfs
    by (rule fan_out_tags[OF that empty])
  have names: "s \<notin> fst ` set (cols R)"
    if R: "returns_frame env symbols start end rule = Inr R" and s: "s \<noteq> ''cash''" for R
  proof -
    from returns_frame_InrD[OF R] obtain dfs where
      dfs: "fan_out env symbols start end rule = Inr dfs"
      by blast
    from returns_frame_names[OF R dfs] tags[OF dfs] s show ?thesis
      by simp
  qed
  have market: "s \<notin> snd ` set (index m)"
    if "load_market_data env symbols start end rule = Inr m"
  proof -
    from load_market_data_InrD[OF that] obtain dfs df where
      dfs: "fan_out env symbols start end rule = Inr dfs" and c: "pd_concat dfs = Inr (Panel df)" and
      i: "index m = filter (\<lambda>(t, s). start \<le> t \<and> t \<le> end) (index df)"
      by blast
    from tags[OF dfs] show ?thesis
      by (auto simp: i pd_concat_PanelD[OF c])
  qed
  have features: "s \<notin> snd ` set (index f)"
    if "load_features env symbols start end rule = Inr f"
  proof -
    from load_features_InrD[OF that] obtain dfs df where
      dfs: "fan_out env symbols start end rule = Inr dfs" and c: "pd_concat dfs = Inr (Panel df)" and
      i: "index f = filter (\<lambda>(t, s). start \<le> t \<and> t \<le> end) (index df)"
      by blast
    from tags[OF dfs] show ?thesis
      by (auto simp: i pd_concat_PanelD[OF c])
  qed
  have ret: "s \<notin> fst ` set (cols r)"
    if "load_ret env symbols start end rule = Inr r" and s: "s \<noteq> ''cash''"
  proof -
    from load_ret_InrD[OF that(1)] obtain R where
      R: "returns_frame env symbols start end rule = Inr R" and
      r: "r = filter_rows (\<lambda>t. start \<le> t \<and> t \<le> end) R"
      by blast
    have "fst ` set (cols r) = fst ` set (cols R)"
      using names_filter_rows[of "\<lambda>t. start \<le> t \<and> t \<le> end" R] unfolding r
      by (metis set_map)
    with names[OF R s] show ?thesis
      by simp
  qed
  have cov: "s \<notin> fst ` set (cols c) \<and> s \<notin> snd ` set (index c)"
    if c: "load_cov env symbols start end window rule = Inr c" and s: "s \<noteq> ''cash''"
  proof -
    from load_cov_InrD[OF c] obtain R where
      R: "returns_frame env symbols start end rule = Inr R"
      by blast
    have "fst ` set (cols c) = fst ` set (cols R)"
      using names_load_cov[OF c R] by (metis set_map)
    with names[OF R s] tags_load_cov[OF c R] show ?thesis
      by blast
  qed
  from market features ret cov show ?thesis
    by blast
qed

theorem no_data_symbol_absent_witness:
  "files demo_env ''b'' = Some []
 \<and> list_all (\<lambda>r. \<not> (minus_6_months demo_env demo_start \<le> b_time r \<and> b_time r < demo_end)) []
 \<and> load_market_data demo_env demo_symbols demo_start demo_end 3600000 = Inr demo_market
 \<and> ''b'' \<notin> snd ` set (index demo_market)
 \<and> load_features demo_env demo_symbols demo_start demo_end 3600000 = Inr demo_feature_view
 \<and> ''b'' \<notin> snd ` set (index demo_feature_view)
 \<and> load_ret demo_env demo_symbols demo_start demo_end 3600000 = Inr demo_ret_view
 \<and> ''b'' \<notin> fst ` set (cols demo_ret_view)
 \<and> load_cov demo_env demo_symbols demo_start demo_end 3 3600000 = Inr demo_cov_view
 \<and> ''b'' \<notin> fst ` set (cols demo_cov_view) \<and> ''b'' \<notin> snd ` set (index demo_cov_view)"
proof -
  have f: "files demo_env ''b'' = Some []"
    by (simp add: demo_env_def)
  have n: "\<forall>r\<in>set []. \<not> (minus_6_months demo_env demo_start \<le> b_time r \<and> b_time r < demo_end)"
    by simp
  from no_data_symbol_absent[OF f n, of demo_symbols 3600000 demo_market demo_feature_view
      demo_ret_view 3 demo_cov_view]
    demo_load_market_data demo_load_features demo_load_ret demo_load_cov f
  show ?thesis
    by simp
qed

text \<open>
  The claim as the specification words it fails on the example: \<open>b\<close> is requested and has no
  record, and the returns and covariance views have no column \<open>b\<close>.
\<close>

theorem no_data_symbol_has_no_zero_column:
  "''b'' \<in> set demo_symbols
 \<and> files demo_env ''b'' = Some []
 \<and> load_ret demo_env demo_symbols demo_start demo_end 3600000 = Inr demo_ret_view
 \<and> map_of (cols demo_ret_view) ''b'' = None
 \<and> load_cov demo_env demo_symbols demo_start demo_end 3 3600000 = Inr demo_cov_view
 \<and> map_of (cols demo_cov_view) ''b'' = None"
  using demo_load_ret demo_load_cov
  by (simp add: demo_symbols_def demo_env_def demo_ret_view_def demo_cov_view_def)

text \<open>
  C6.  A call of \<open>load_data\<close> whose resampled frame has fewer than thirty bars warns and
  returns the empty frame.  A batch in which every symbol does so does not complete: on the
  example, \<open>b\<close> has no record and \<open>d\<close> has three bars, both loaders warn and return the empty
  frame, and each of the four views of the batch \<open>[b, d]\<close> ends with \<open>KeyError\<close>, raised by
  \<open>set_index\<close> or \<open>pivot\<close> on the concatenation, which has no columns.
\<close>

theorem all_soft_failures_abort_batch:
  "load_data demo_env ''b'' (minus_6_months demo_env demo_start) demo_end 3600000
     = Inr ([insufficient_warning ''b''], EmptyPanel)
 \<and> load_data demo_env ''d'' (minus_6_months demo_env demo_start) demo_end 3600000
     = Inr ([insufficient_warning ''d''], EmptyPanel)
 \<and> load_market_data demo_env [''b'', ''d''] demo_start demo_end 3600000 = Inl KeyError
 \<and> load_features demo_env [''b'', ''d''] demo_start demo_end 3600000 = Inl KeyError
 \<and> load_ret demo_env [''b'', ''d''] demo_start demo_end 3600000 = Inl KeyError
 \<and> load_cov demo_env [''b'', ''d''] demo_start demo_end 180 3600000 = Inl KeyError"
proof -
  have b: "load_data demo_env ''b'' (minus_6_months demo_env demo_start) demo_end 3600000
             = Inr ([insufficient_warning ''b''], EmptyPanel)"
    by code_simp
  have d: "load_data demo_env ''d'' (minus_6_months demo_env demo_start) demo_end 3600000
             = Inr ([insufficient_warning ''d''], EmptyPanel)"
    by code_simp
  have f: "fan_out demo_env [''b'', ''d''] demo_start demo_end 3600000
             = Inr [EmptyPanel, EmptyPanel]"
    by (simp add: fan_out_def b d)
  have c: "pd_concat [EmptyPanel, EmptyPanel] = Inr EmptyPanel"
    by (simp add: pd_concat_def)
  show ?thesis
    by (simp add: b d load_market_data_def load_features_def load_ret_def load_cov_def
                  returns_frame_def f c set_index_def pivot_def)
qed

text \<open>
  C9.  A panel that \<open>load_data\<close> returns for a rule of positive width has at least thirty
  rows, its timestamps start at some \<open>t0\<close> and go up by exactly the width of the rule from
  row to row, and every record of the symbol's file with \<open>start \<le> time < end\<close> lies in the
  bin of one of the rows: no bin between the first and the last is missing.
\<close>

theorem panel_index_regular:
  assumes "load_data env s start end rule = Inr (ws, Panel p)"
    and "0 < rule" and "files env s = Some raw"
  shows "30 \<le> length (index p)
       \<and> (\<exists>t0. index p = map (\<lambda>k. (t0 + int k * rule, s)) [0 ..< length (index p)])
       \<and> (\<forall>r\<in>set raw. start \<le> b_time r \<and> b_time r < end
             \<longrightarrow> (\<exists>i<length (index p). fst (index p ! i) \<le> b_time r
                                        \<and> b_time r < fst (index p ! i) + rule))"
proof -
  from assms(1) obtain raw' rows where
    raw': "files env s = Some raw'" and
    rows: "rows = filter (\<lambda>r. start \<le> b_time r \<and> b_time r < end) raw'" and
    len: "30 \<le> length (resample_labels rule rows)" and
    idx: "index p = map (\<lambda>t. (t, s)) (resample_labels rule rows)"
    by (rule load_data_Panel)
  from raw' assms(3) have raw: "raw' = raw"
    by simp
  define ts where "ts = map b_time (sort_key b_time rows)"
  have labels: "resample_labels rule rows = bin_labels rule ts"
    by (simp add: resample_labels_def ts_def)
  have sorted: "sorted ts"
    by (simp add: ts_def sorted_sort_key)
  have "index p = map (\<lambda>t. (t, s))
          (map (\<lambda>k. hd (bin_labels rule ts) + int k * rule) [0 ..< length (bin_labels rule ts)])"
    unfolding idx labels using bin_labels_progression[of rule ts] by simp
  then have prog: "index p = map (\<lambda>k. (hd (bin_labels rule ts) + int k * rule, s))
                               [0 ..< length (index p)]"
    by (simp add: idx labels comp_def)
  have cover: "\<exists>i<length (index p). fst (index p ! i) \<le> b_time r
                                   \<and> b_time r < fst (index p ! i) + rule"
    if "r \<in> set raw" and "start \<le> b_time r \<and> b_time r < end" for r
  proof -
    from that have "b_time r \<in> set ts"
      by (simp add: ts_def rows raw)
    from bin_labels_cover[OF assms(2) sorted this] show ?thesis
      by (auto simp: idx labels)
  qed
  from len prog cover show ?thesis
    by (auto simp: idx)
qed

theorem panel_index_regular_witness:
  "load_data demo_env ''a'' 0 demo_end 3600000 = Inr ([], Panel demo_panel)
 \<and> (0::int) < 3600000
 \<and> files demo_env ''a'' = Some demo_bars
 \<and> list_all (\<lambda>r. 0 \<le> b_time r \<and> b_time r < demo_end) demo_bars
 \<and> 30 \<le> length (index demo_panel)
 \<and> (\<exists>t0. index demo_panel
            = map (\<lambda>k. (t0 + int k * 3600000, ''a'')) [0 ..< length (index demo_panel)])
 \<and> list_all (\<lambda>r. \<exists>i<length (index demo_panel). fst (index demo_panel ! i) \<le> b_time r
                                     \<and> b_time r < fst (index demo_panel ! i) + 3600000)
      demo_bars"
proof -
  have f: "files demo_env ''a'' = Some demo_bars"
    by (simp add: demo_env_def)
  have r: "(0::int) < 3600000"
    by simp
  have inr: "list_all (\<lambda>r. 0 \<le> b_time r \<and> b_time r < demo_end) demo_bars"
    by (simp add: demo_bars_def demo_end_def)
  from panel_index_regular[OF demo_load_data r f] inr f demo_load_data show ?thesis
    by (auto simp: list_all_iff)
qed

text \<open>
  C1, as the code has it.  In a panel that \<open>load_data\<close> returns, a bin in which the file
  has no record of the range is never the first row; its \<open>open\<close>, \<open>high\<close>, \<open>low\<close> and
  \<open>close\<close> are each the value of the same column in the row before (\<open>ffill\<close> works column
  by column), and its \<open>volume\<close> is zero.
\<close>

theorem gap_bucket_forward_filled:
  assumes "load_data env s start end rule = Inr (ws, Panel p)"
    and "files env s = Some raw" and "0 < rule" and "keeps_base env"
    and "i < length (index p)"
    and "\<forall>r\<in>set raw. start \<le> b_time r \<and> b_time r < end
           \<longrightarrow> \<not> (fst (index p ! i) \<le> b_time r \<and> b_time r < fst (index p ! i) + rule)"
  shows "0 < i
       \<and> (\<exists>opn hi lo cl vol.
             map_of (cols p) ''open'' = Some opn \<and> map_of (cols p) ''high'' = Some hi
           \<and> map_of (cols p) ''low'' = Some lo \<and> map_of (cols p) ''close'' = Some cl
           \<and> map_of (cols p) ''volume'' = Some vol
           \<and> opn ! i = opn ! (i - 1) \<and> hi ! i = hi ! (i - 1) \<and> lo ! i = lo ! (i - 1)
           \<and> cl ! i = cl ! (i - 1) \<and> vol ! i = Fin 0)"
proof -
  from assms(1) obtain raw' rows rr where
    raw': "files env s = Some raw'" and
    rows: "rows = filter (\<lambda>r. start \<le> b_time r \<and> b_time r < end) raw'" and
    len: "30 \<le> length (resample_labels rule rows)" and
    idx: "index p = map (\<lambda>t. (t, s)) (resample_labels rule rows)" and
    cols: "cols p = cols (ffill (dropna_cols (replace_inf (add_all_ta_features env
                 (set_column ''ret'' (pct_change rr) (ffill (resample_agg rule rows)))))))"
    by (rule load_data_Panel)
  from raw' assms(2) have raw: "raw' = raw"
    by simp
  from len have ne: "rows \<noteq> []"
    by (auto simp: resample_labels_def bin_labels_Nil)
  from assms(5) have i: "i < length (resample_labels rule rows)"
    by (simp add: idx)
  then have label: "fst (index p ! i) = resample_labels rule rows ! i"
    by (simp add: idx)
  from assms(6) have gap: "\<forall>r\<in>set rows. \<not> (resample_labels rule rows ! i \<le> b_time r
                              \<and> b_time r < resample_labels rule rows ! i + rule)"
    by (simp add: rows raw label)
  note base = panel_base_column[OF cols assms(4,3) ne]
  note filled = filled_column_gap[OF assms(3) ne _ i gap]
  from filled[of "agg_first b_open"] have "0 < i"
    by (simp add: agg_empty)
  moreover note base
  moreover from filled[of "agg_first b_open"] have
    "ffill_from NaN (map (agg_first b_open) (resample_groups rule rows)) ! i
       = ffill_from NaN (map (agg_first b_open) (resample_groups rule rows)) ! (i - 1)"
    by (simp add: agg_empty)
  moreover from filled[of "agg_max b_high"] have
    "ffill_from NaN (map (agg_max b_high) (resample_groups rule rows)) ! i
       = ffill_from NaN (map (agg_max b_high) (resample_groups rule rows)) ! (i - 1)"
    by (simp add: agg_empty)
  moreover from filled[of "agg_min b_low"] have
    "ffill_from NaN (map (agg_min b_low) (resample_groups rule rows)) ! i
       = ffill_from NaN (map (agg_min b_low) (resample_groups rule rows)) ! (i - 1)"
    by (simp add: agg_empty)
  moreover from filled[of "agg_last b_close"] have
    "ffill_from NaN (map (agg_last b_close) (resample_groups rule rows)) ! i
       = ffill_from NaN (map (agg_last b_close) (resample_groups rule rows)) ! (i - 1)"
    by (simp add: agg_empty)
  moreover have "map (agg_sum b_volume) (resample_groups rule rows) ! i = Fin 0"
    by (rule volume_column_gap[OF i gap])
  ultimately show ?thesis
    by blast
qed

theorem gap_bucket_forward_filled_witness:
  "load_data demo_env ''a'' 0 demo_end 3600000 = Inr ([], Panel demo_panel)
 \<and> files demo_env ''a'' = Some demo_bars
 \<and> (0::int) < 3600000
 \<and> keeps_base demo_env
 \<and> 3 < length (index demo_panel)
 \<and> list_all (\<lambda>r. \<not> (fst (index demo_panel ! 3) \<le> b_time r
                      \<and> b_time r < fst (index demo_panel ! 3) + 3600000)) demo_bars
 \<and> (\<exists>opn hi lo cl vol.
       map_of (cols demo_panel) ''open'' = Some opn \<and> map_of (cols demo_panel) ''high'' = Some hi
     \<and> map_of (cols demo_panel) ''low'' = Some lo \<and> map_of (cols demo_panel) ''close'' = Some cl
     \<and> map_of (cols demo_panel) ''volume'' = Some vol
     \<and> opn ! 3 = opn ! 2 \<and> hi ! 3 = hi ! 2 \<and> lo ! 3 = lo ! 2 \<and> cl ! 3 = cl ! 2
     \<and> vol ! 3 = Fin 0)"
proof -
  have f: "files demo_env ''a'' = Some demo_bars"
    by (simp add: demo_env_def)
  have r: "(0::int) < 3600000"
    by simp
  have k: "keeps_base demo_env"
    by (simp add: keeps_base_def demo_env_def demo_features_def base_columns_def)
  have i: "3 < length (index demo_panel)"
    by (simp add: demo_panel_def)
  have g: "list_all (\<lambda>r. \<not> (fst (index demo_panel ! 3) \<le> b_time r
                       \<and> b_time r < fst (index demo_panel ! 3) + 3600000)) demo_bars"
    by (simp add: demo_panel_def demo_bars_def)
  then have g': "\<forall>r\<in>set demo_bars. 0 \<le> b_time r \<and> b_time r < demo_end
           \<longrightarrow> \<not> (fst (index demo_panel ! 3) \<le> b_time r
                  \<and> b_time r < fst (index demo_panel ! 3) + 3600000)"
    by (simp add: list_all_iff)
  from gap_bucket_forward_filled[OF demo_load_data f r k i g'] demo_load_data f k i g
  show ?thesis
    by simp
qed

text \<open>
  The claim as the specification words it fails on the example: the fourth bin of \<open>a\<close> has
  no record, the close of the bin before is 5, and the panel has open 4, high 6 and low 4
  there, the values of the bin before column by column; only close is 5.
\<close>

theorem gap_bucket_not_previous_close:
  "load_data demo_env ''a'' 0 demo_end 3600000 = Inr ([], Panel demo_panel)
 \<and> files demo_env ''a'' = Some demo_bars
 \<and> list_all (\<lambda>r. \<not> (fst (index demo_panel ! 3) \<le> b_time r
                      \<and> b_time r < fst (index demo_panel ! 3) + 3600000)) demo_bars
 \<and> cell demo_panel ''close'' 2 = Some (Fin 5)
 \<and> cell demo_panel ''open'' 3 = Some (Fin 4)
 \<and> cell demo_panel ''high'' 3 = Some (Fin 6)
 \<and> cell demo_panel ''low'' 3 = Some (Fin 4)
 \<and> cell demo_panel ''close'' 3 = Some (Fin 5)
 \<and> cell demo_panel ''volume'' 3 = Some (Fin 0)"
proof -
  have "files demo_env ''a'' = Some demo_bars"
    by (simp add: demo_env_def)
  moreover have "list_all (\<lambda>r. \<not> (fst (index demo_panel ! 3) \<le> b_time r
                       \<and> b_time r < fst (index demo_panel ! 3) + 3600000)) demo_bars"
    by (simp add: demo_panel_def demo_bars_def)
  moreover have "cell demo_panel ''close'' 2 = Some (Fin 5)"
    "cell demo_panel ''open'' 3 = Some (Fin 4)" "cell demo_panel ''high'' 3 = Some (Fin 6)"
    "cell demo_panel ''low'' 3 = Some (Fin 4)" "cell demo_panel ''close'' 3 = Some (Fin 5)"
    "cell demo_panel ''volume'' 3 = Some (Fin 0)"
    by (simp_all add: cell_def demo_panel_def)
  ultimately show ?thesis
    using demo_load_data by simp
qed

end
